theory Spec2Isabelle
  imports Main
begin

section \<open>Python values, errors and tables\<close>

text \<open>
  The module \<^verbatim>\<open>tensortrade/data/cdd.py\<close> holds one class, \<^verbatim>\<open>CryptoDataDownload\<close>,
  with the methods \<^verbatim>\<open>fetch_default\<close>, \<^verbatim>\<open>fetch_mofid\<close>, \<^verbatim>\<open>fetch_gemini\<close> and
  \<^verbatim>\<open>fetch\<close>. Every exception of the Python is a value \<open>Inl e\<close> of the result type.
  Strings are byte strings; the only case mapping the methods compare against has
  ASCII targets (\<^verbatim>\<open>gemini\<close>, \<^verbatim>\<open>mofid\<close>, column labels), so \<^verbatim>\<open>str.lower\<close> is
  modelled on the 26 ASCII capitals.
\<close>

datatype error =
    KeyError "string list"
  | ValueError
  | TypeError
  | IndexError
  | OverflowError
  | OutOfBoundsDatetime
  | HTTPError nat
  | URLError string
  | ParserError string

text \<open>
  The values that occur in a parsed CSV table or a decoded JSON document. A finite
  float is \<open>PFloat m e\<close>, standing for \<open>m * 2 ^ e\<close>; \<open>PTimestamp s\<close> is the pandas
  timestamp \<open>s\<close> whole seconds after the epoch and \<open>PNaT\<close> the missing timestamp
  \<^verbatim>\<open>NaT\<close>; \<open>PDatetime s\<close> is the naive local
  \<^verbatim>\<open>datetime\<close> that \<^verbatim>\<open>datetime.fromtimestamp(s)\<close> builds.
\<close>

datatype pyval =
    PNone
  | PBool bool
  | PInt int
  | PFloat int int
  | PNaN
  | PInf bool
  | PStr string
  | PList "pyval list"
  | PDict "(string \<times> pyval) list"
  | PTimestamp int
  | PNaT
  | PDatetime int

type_synonym column = "string \<times> pyval list"

text \<open>A table is the ordered list of its labelled columns; labels may repeat.\<close>

type_synonym frame = "column list"

type_synonym datetime = "nat \<times> nat \<times> nat \<times> nat \<times> nat"

definition bindE :: "error + 'a \<Rightarrow> ('a \<Rightarrow> error + 'b) \<Rightarrow> error + 'b" where
  "bindE m f = (case m of Inl e \<Rightarrow> Inl e | Inr x \<Rightarrow> f x)"

fun mapE :: "('a \<Rightarrow> error + 'b) \<Rightarrow> 'a list \<Rightarrow> error + 'b list" where
  "mapE f [] = Inr []"
| "mapE f (x # xs) = bindE (f x) (\<lambda>y. bindE (mapE f xs) (\<lambda>ys. Inr (y # ys)))"

subsection \<open>Strings\<close>

definition lower_char :: "char \<Rightarrow> char" where
  "lower_char c =
     (case map_of (zip ''ABCDEFGHIJKLMNOPQRSTUVWXYZ'' ''abcdefghijklmnopqrstuvwxyz'') c of
        None \<Rightarrow> c | Some d \<Rightarrow> d)"

definition upper_char :: "char \<Rightarrow> char" where
  "upper_char c =
     (case map_of (zip ''abcdefghijklmnopqrstuvwxyz'' ''ABCDEFGHIJKLMNOPQRSTUVWXYZ'') c of
        None \<Rightarrow> c | Some d \<Rightarrow> d)"

text \<open>\<^verbatim>\<open>s.lower()\<close>\<close>

definition lower :: "string \<Rightarrow> string" where
  "lower s = map lower_char s"

text \<open>\<^verbatim>\<open>s.endswith(t)\<close>\<close>

definition endswith :: "string \<Rightarrow> string \<Rightarrow> bool" where
  "endswith s t = (length t \<le> length s \<and> drop (length s - length t) s = t)"

definition digit_char :: "nat \<Rightarrow> char" where
  "digit_char d = ''0123456789'' ! d"

fun digits :: "nat \<Rightarrow> string" where
  "digits n = (if n < 10 then [digit_char n] else digits (n div 10) @ [digit_char (n mod 10)])"

declare digits.simps [simp del]

text \<open>\<^verbatim>\<open>str(x)\<close> for an integer \<open>x\<close>: a minus sign for a negative one, then the decimal digits.\<close>

definition str_int :: "int \<Rightarrow> string" where
  "str_int x = (if x < 0 then CHR ''-'' # digits (nat (- x)) else digits (nat x))"

text \<open>
  The number of decimal digits of an integer, the sign not counted: the quantity the
  specification speaks of.
\<close>

fun digit_count :: "nat \<Rightarrow> nat" where
  "digit_count n = (if n < 10 then 1 else Suc (digit_count (n div 10)))"

declare digit_count.simps [simp del]

definition decimal_digit_count :: "int \<Rightarrow> nat" where
  "decimal_digit_count x = digit_count (nat \<bar>x\<bar>)"

subsection \<open>Integers\<close>

text \<open>
  \<^verbatim>\<open>int(x / 1000)\<close>: Python's \<^verbatim>\<open>/\<close> is the float quotient and \<^verbatim>\<open>int\<close> drops the
  fraction, rounding toward zero. The lambda of the source divides only when \<^verbatim>\<open>str(x)\<close>
  has 13 characters, so \<open>\<bar>x\<bar> < 10 ^ 13 < 2 ^ 53\<close>: \<open>x\<close> is a float exactly, the exact
  quotient is either an integer or at least \<open>1 / 1000\<close> away from one, and the rounding
  error of the division (below \<open>2 ^ - 19\<close> at that size) cannot reach the next integer.
  The result is therefore the exact quotient rounded toward zero.
\<close>

definition int_truediv :: "int \<Rightarrow> int \<Rightarrow> int" where
  "int_truediv x d = sgn x * (\<bar>x\<bar> div d)"

text \<open>\<^verbatim>\<open>lambda x: int(x / 1000) if len(str(x)) == 13 else x\<close>\<close>

definition normalize_unix :: "int \<Rightarrow> int" where
  "normalize_unix x = (if length (str_int x) = 13 then int_truediv x 1000 else x)"

text \<open>\<^verbatim>\<open>int(f)\<close> for the finite float \<open>m * 2 ^ e\<close>.\<close>

definition float_trunc :: "int \<Rightarrow> int \<Rightarrow> int" where
  "float_trunc m e = (if 0 \<le> e then m * 2 ^ nat e else sgn m * (\<bar>m\<bar> div 2 ^ nat (- e)))"

subsection \<open>The environment: network, platform and library\<close>

text \<open>
  What the methods obtain from outside the module. \<open>csv_response env log u k\<close> is the
  outcome of \<^verbatim>\<open>pd.read_csv(u, skiprows=k)\<close> after the requests \<open>log\<close> were made: the
  parsed table, or the error the HTTP layer or the parser raised. \<open>json_response\<close> is
  the outcome of \<^verbatim>\<open>json.loads(urllib.request.urlopen(u).read().decode('utf-8'))\<close>.
  \<open>strftime_s\<close> is the platform's \<^verbatim>\<open>strftime('%s')\<close> of a naive local \<^verbatim>\<open>datetime\<close>,
  \<open>fromtimestamp\<close> is \<^verbatim>\<open>datetime.fromtimestamp\<close>, \<open>int_of_str\<close> is \<^verbatim>\<open>int\<close> on a string.
\<close>

record env =
  csv_response :: "string list \<Rightarrow> string \<Rightarrow> nat \<Rightarrow> error + frame"
  json_response :: "string list \<Rightarrow> string \<Rightarrow> error + pyval"
  strftime_s :: "datetime \<Rightarrow> error + string"
  fromtimestamp :: "int \<Rightarrow> error + pyval"
  int_of_str :: "string \<Rightarrow> error + int"

text \<open>Each retrieval appends its locator to the log of requests made.\<close>

definition read_csv :: "env \<Rightarrow> string list \<Rightarrow> string \<Rightarrow> nat \<Rightarrow> (error + frame) \<times> string list" where
  "read_csv env log u skiprows = (csv_response env log u skiprows, log @ [u])"

definition urlopen_json :: "env \<Rightarrow> string list \<Rightarrow> string \<Rightarrow> (error + pyval) \<times> string list" where
  "urlopen_json env log u = (json_response env log u, log @ [u])"

subsection \<open>Python conversions and subscripts\<close>

text \<open>\<^verbatim>\<open>int(v)\<close>, the built-in conversion of Python.\<close>

fun py_int :: "env \<Rightarrow> pyval \<Rightarrow> error + int" where
  "py_int env (PInt n) = Inr n"
| "py_int env (PBool b) = Inr (if b then 1 else 0)"
| "py_int env (PFloat m e) = Inr (float_trunc m e)"
| "py_int env PNaN = Inl ValueError"
| "py_int env (PInf b) = Inl OverflowError"
| "py_int env (PStr s) = int_of_str env s"
| "py_int env PNone = Inl TypeError"
| "py_int env (PList xs) = Inl TypeError"
| "py_int env (PDict kvs) = Inl TypeError"
| "py_int env (PTimestamp s) = Inl TypeError"
| "py_int env PNaT = Inl TypeError"
| "py_int env (PDatetime s) = Inl TypeError"

text \<open>
  \<^verbatim>\<open>series.astype(int)\<close> casts each cell to a signed 64-bit integer, by the rules of
  NumPy under pandas 1.x on x86-64. An integer of an \<^verbatim>\<open>int64\<close> column stays as it is; an
  integer of a \<^verbatim>\<open>uint64\<close> column from \<open>2 ^ 63\<close> on wraps around; a finite float is
  truncated toward zero, and gives \<open>- 2 ^ 63\<close> when it lies outside the range; \<^verbatim>\<open>NaN\<close>
  and the infinities raise \<^verbatim>\<open>ValueError\<close>; a string of an \<^verbatim>\<open>object\<close> column is converted
  by \<^verbatim>\<open>int\<close> and must fit.
\<close>

fun int64_cast :: "env \<Rightarrow> pyval \<Rightarrow> error + int" where
  "int64_cast env (PInt n) =
     (if - 9223372036854775808 \<le> n \<and> n < 9223372036854775808 then Inr n
      else if 9223372036854775808 \<le> n \<and> n < 18446744073709551616
      then Inr (n - 18446744073709551616)
      else Inl OverflowError)"
| "int64_cast env (PBool b) = Inr (if b then 1 else 0)"
| "int64_cast env (PFloat m e) =
     (let t = float_trunc m e
      in if - 9223372036854775808 \<le> t \<and> t < 9223372036854775808 then Inr t
         else Inr (- 9223372036854775808))"
| "int64_cast env PNaN = Inl ValueError"
| "int64_cast env (PInf b) = Inl ValueError"
| "int64_cast env (PStr s) =
     bindE (int_of_str env s) (\<lambda>n.
       if - 9223372036854775808 \<le> n \<and> n < 9223372036854775808 then Inr n
       else Inl OverflowError)"
| "int64_cast env PNone = Inl TypeError"
| "int64_cast env (PList xs) = Inl TypeError"
| "int64_cast env (PDict kvs) = Inl TypeError"
| "int64_cast env (PTimestamp s) = Inl TypeError"
| "int64_cast env PNaT = Inl TypeError"
| "int64_cast env (PDatetime s) = Inl TypeError"

definition astype_int :: "env \<Rightarrow> pyval list \<Rightarrow> error + int list" where
  "astype_int env cells = mapE (int64_cast env) cells"

text \<open>\<^verbatim>\<open>v[key]\<close> with a string key.\<close>

fun subscript_key :: "pyval \<Rightarrow> string \<Rightarrow> error + pyval" where
  "subscript_key (PDict kvs) k = (case map_of kvs k of None \<Rightarrow> Inl (KeyError [k]) | Some v \<Rightarrow> Inr v)"
| "subscript_key v k = Inl TypeError"

text \<open>\<^verbatim>\<open>len(v)\<close>\<close>

fun py_len :: "pyval \<Rightarrow> error + nat" where
  "py_len (PList xs) = Inr (length xs)"
| "py_len (PStr s) = Inr (length s)"
| "py_len (PDict kvs) = Inr (length kvs)"
| "py_len v = Inl TypeError"

text \<open>\<^verbatim>\<open>v[i]\<close> with \<open>i\<close> drawn from \<^verbatim>\<open>range\<close>, hence not negative.\<close>

fun subscript_idx :: "pyval \<Rightarrow> nat \<Rightarrow> error + pyval" where
  "subscript_idx (PList xs) i = (if i < length xs then Inr (xs ! i) else Inl IndexError)"
| "subscript_idx (PStr s) i = (if i < length s then Inr (PStr [s ! i]) else Inl IndexError)"
| "subscript_idx (PDict kvs) i = Inl (KeyError [str_int (int i)])"
| "subscript_idx v i = Inl TypeError"

subsection \<open>Table operations\<close>

definition column_names :: "frame \<Rightarrow> string list" where
  "column_names df = map fst df"

text \<open>\<^verbatim>\<open>df[::-1]\<close>\<close>

definition reverse_rows :: "frame \<Rightarrow> frame" where
  "reverse_rows df = map (\<lambda>(n, cs). (n, rev cs)) df"

text \<open>
  \<^verbatim>\<open>df.drop(labels, axis=1)\<close>: every column carrying one of the labels goes; a label
  that no column carries raises \<^verbatim>\<open>KeyError\<close>.
\<close>

definition drop_columns :: "string list \<Rightarrow> frame \<Rightarrow> error + frame" where
  "drop_columns labels df =
     (let missing = filter (\<lambda>l. l \<notin> set (column_names df)) labels
      in if missing \<noteq> [] then Inl (KeyError missing)
         else Inr (filter (\<lambda>(n, cs). n \<notin> set labels) df))"

definition rename_label :: "(string \<rightharpoonup> string) \<Rightarrow> string \<Rightarrow> string" where
  "rename_label m n = (case m n of None \<Rightarrow> n | Some n' \<Rightarrow> n')"

text \<open>\<^verbatim>\<open>df.rename(m, axis=1)\<close>: a key of \<open>m\<close> that labels no column is ignored.\<close>

definition rename_columns :: "(string \<rightharpoonup> string) \<Rightarrow> frame \<Rightarrow> frame" where
  "rename_columns m df = map (\<lambda>(n, cs). (rename_label m n, cs)) df"

text \<open>
  \<^verbatim>\<open>df[key]\<close>: \<^verbatim>\<open>KeyError\<close> without such a column. A label carried by several columns
  selects a sub-table, on which the conversion to a timestamp that follows in these
  methods raises \<^verbatim>\<open>ValueError\<close>; the model raises it at the read.
\<close>

definition getitem :: "frame \<Rightarrow> string \<Rightarrow> error + pyval list" where
  "getitem df key =
     (case filter (\<lambda>(n, cs). n = key) df of
        [] \<Rightarrow> Inl (KeyError [key])
      | [(n, cs)] \<Rightarrow> Inr cs
      | _ \<Rightarrow> Inl ValueError)"

text \<open>\<^verbatim>\<open>df[key] = cells\<close>: every column labelled \<open>key\<close> is replaced, or a new last column is added.\<close>

definition setitem :: "frame \<Rightarrow> string \<Rightarrow> pyval list \<Rightarrow> frame" where
  "setitem df key cells =
     (if key \<in> set (column_names df)
      then map (\<lambda>(n, old). if n = key then (n, cells) else (n, old)) df
      else df @ [(key, cells)])"

text \<open>
  \<^verbatim>\<open>pd.to_datetime(series, unit="s")\<close> on 64-bit integers: a nanosecond-resolution
  timestamp holds at most \<open>9223372036\<close> whole seconds on either side of the epoch, and
  the integer \<open>- 2 ^ 63\<close> is the mark of a missing value, which becomes \<^verbatim>\<open>NaT\<close>.
\<close>

definition timestamp_ok :: "int \<Rightarrow> bool" where
  "timestamp_ok x = (x = - 9223372036854775808 \<or> (- 9223372036 \<le> x \<and> x \<le> 9223372036))"

definition to_timestamp :: "int \<Rightarrow> pyval" where
  "to_timestamp x = (if x = - 9223372036854775808 then PNaT else PTimestamp x)"

definition to_datetime_s :: "int list \<Rightarrow> error + pyval list" where
  "to_datetime_s xs =
     (if \<forall>x \<in> set xs. timestamp_ok x
      then Inr (map to_timestamp xs) else Inl OutOfBoundsDatetime)"

text \<open>
  \<^verbatim>\<open>df.set_index(key)\<close>: the column becomes the index and leaves the columns. The result
  is the index column paired with the remaining columns. When several columns carry the
  key, pandas 1.x builds the index from all of them: for columns of timestamps it lets
  this pass, and every column carrying the key leaves the columns; for any other kind
  of column it raises \<^verbatim>\<open>ValueError\<close> (index data must be 1-dimensional). In
  \<^verbatim>\<open>fetch_default\<close> such columns have just been filled with one and the same column of
  timestamps, which is the index column of the model.
\<close>

definition is_time :: "pyval \<Rightarrow> bool" where
  "is_time v = (case v of PTimestamp s \<Rightarrow> True | PNaT \<Rightarrow> True | _ \<Rightarrow> False)"

definition set_index :: "string \<Rightarrow> frame \<Rightarrow> error + column \<times> frame" where
  "set_index key df =
     (case filter (\<lambda>(n, cs). n = key) df of
        [] \<Rightarrow> Inl (KeyError [key])
      | c # others \<Rightarrow>
          if others = [] \<or> list_all (\<lambda>(n, cs). list_all is_time cs) (c # others)
          then Inr (c, filter (\<lambda>(n, cs). n \<noteq> key) df)
          else Inl ValueError)"

text \<open>\<^verbatim>\<open>df.columns = [name.lower() for name in df.columns]\<close>: the index keeps its name.\<close>

definition lower_columns :: "column \<times> frame \<Rightarrow> column \<times> frame" where
  "lower_columns idf = (fst idf, map (\<lambda>(n, cs). (lower n, cs)) (snd idf))"

text \<open>
  \<^verbatim>\<open>df.reset_index()\<close>: the index returns as the first column; \<^verbatim>\<open>ValueError\<close> when a
  column already carries its name.
\<close>

definition reset_index :: "column \<times> frame \<Rightarrow> error + frame" where
  "reset_index idf =
     (if fst (fst idf) \<in> set (column_names (snd idf)) then Inl ValueError
      else Inr (fst idf # snd idf))"

text \<open>
  \<^verbatim>\<open>df.append(row, ignore_index=True)\<close> with a dictionary: each column receives the
  row's value under its label, \<^verbatim>\<open>NaN\<close> without one; a key that labels no column becomes
  a new column, \<^verbatim>\<open>NaN\<close> in the earlier rows.
\<close>

definition append_row :: "frame \<Rightarrow> (string \<times> pyval) list \<Rightarrow> frame" where
  "append_row df row =
     (let n = (case df of [] \<Rightarrow> 0 | c # _ \<Rightarrow> length (snd c))
      in map (\<lambda>(l, cs). (l, cs @ [case map_of row l of None \<Rightarrow> PNaN | Some v \<Rightarrow> v])) df
         @ map (\<lambda>(l, v). (l, replicate n PNaN @ [v]))
             (filter (\<lambda>(l, v). l \<notin> set (column_names df)) row))"

section \<open>The class CryptoDataDownload\<close>

record cdd =
  url :: string

text \<open>\<^verbatim>\<open>__init__\<close>\<close>

definition init :: cdd where
  "init = \<lparr>url = ''https://www.cryptodatadownload.com/cdd/''\<rparr>"

subsection \<open>fetch_default\<close>

text \<open>\<^verbatim>\<open>"{}_{}{}_{}.csv".format(exchange_name, quote_symbol, base_symbol, timeframe)\<close>\<close>

definition csv_filename :: "string \<Rightarrow> string \<Rightarrow> string \<Rightarrow> string \<Rightarrow> string" where
  "csv_filename exchange_name quote_symbol base_symbol timeframe =
     exchange_name @ ''_'' @ quote_symbol @ base_symbol @ ''_'' @ timeframe @ ''.csv''"

text \<open>
  The dictionary \<^verbatim>\<open>{base_vc: new_base_vc, quote_vc: new_quote_vc, "Date": "date"}\<close>; as
  in a Python dictionary display, a later entry replaces an earlier one with the same key.
\<close>

definition volume_renames :: "string \<Rightarrow> string \<Rightarrow> (string \<rightharpoonup> string)" where
  "volume_renames base_vc quote_vc =
     [base_vc \<mapsto> ''volume_base'', quote_vc \<mapsto> ''volume_quote'', ''Date'' \<mapsto> ''date'']"

text \<open>
  Lines 72 to 80, shared by \<^verbatim>\<open>fetch_default\<close> and \<^verbatim>\<open>fetch_mofid\<close>: the \<^verbatim>\<open>unix\<close> column is
  read, converted to integers and stored, normalised and stored, \<^verbatim>\<open>date\<close> is derived
  from it and moved to the front, and the other labels are lower-cased. The second read
  of \<^verbatim>\<open>df["unix"]\<close> returns the column the line before stored.
\<close>

definition normalize_table :: "env \<Rightarrow> frame \<Rightarrow> error + frame" where
  "normalize_table env df =
     bindE (getitem df ''unix'') (\<lambda>u.
     bindE (astype_int env u) (\<lambda>xs.
       let df1 = setitem df ''unix'' (map PInt xs);
           ys = map normalize_unix xs;
           df2 = setitem df1 ''unix'' (map PInt ys)
       in bindE (to_datetime_s ys) (\<lambda>dates.
          bindE (set_index ''date'' (setitem df2 ''date'' dates)) (\<lambda>idf.
            reset_index (lower_columns idf)))))"

text \<open>Lines 68 to 85: what \<^verbatim>\<open>fetch_default\<close> does with the table it retrieved.\<close>

definition default_reshape :: "env \<Rightarrow> string \<Rightarrow> string \<Rightarrow> bool \<Rightarrow> frame \<Rightarrow> error + frame" where
  "default_reshape env base_symbol quote_symbol include_all_volumes df0 =
     (let base_vc = ''Volume '' @ base_symbol;
          new_base_vc = ''volume_base'';
          quote_vc = ''Volume '' @ quote_symbol;
          new_quote_vc = ''volume_quote'';
          df1 = reverse_rows df0
      in bindE (drop_columns [''symbol''] df1) (\<lambda>df2.
         bindE (normalize_table env (rename_columns (volume_renames base_vc quote_vc) df2)) (\<lambda>df3.
           if \<not> include_all_volumes
           then bindE (drop_columns [new_quote_vc] df3) (\<lambda>df4.
                  Inr (rename_columns [new_base_vc \<mapsto> ''volume''] df4))
           else Inr df3)))"

definition fetch_default ::
  "env \<Rightarrow> cdd \<Rightarrow> string list \<Rightarrow> string \<Rightarrow> string \<Rightarrow> string \<Rightarrow> string \<Rightarrow> bool
     \<Rightarrow> (error + frame) \<times> string list" where
  "fetch_default env self log exchange_name base_symbol quote_symbol timeframe include_all_volumes =
     (let filename = csv_filename exchange_name quote_symbol base_symbol timeframe;
          (r, log') = read_csv env log (url self @ filename) 1
      in (bindE r (default_reshape env base_symbol quote_symbol include_all_volumes), log'))"

subsection \<open>fetch_mofid\<close>

definition mofid_url :: "string \<Rightarrow> string \<Rightarrow> string \<Rightarrow> string \<Rightarrow> string" where
  "mofid_url base_symbol timeframe startEpoch endEpoch =
     ''https://rlcchartapi.mofidonline.com/ChartData/history?symbol='' @ base_symbol
       @ ''&resolution='' @ timeframe @ ''&from='' @ startEpoch @ ''&to='' @ endEpoch"

text \<open>The dictionary appended at index \<open>i\<close>; its entries are evaluated in order.\<close>

definition mofid_row :: "env \<Rightarrow> pyval \<Rightarrow> string \<Rightarrow> nat \<Rightarrow> error + (string \<times> pyval) list" where
  "mofid_row env json_content base_vc i =
     (let field = (\<lambda>k. bindE (subscript_key json_content k) (\<lambda>a. subscript_idx a i))
      in bindE (field ''t'') (\<lambda>t.
         bindE (py_int env t) (\<lambda>s.
         bindE (fromtimestamp env s) (\<lambda>d.
         bindE (field ''o'') (\<lambda>open.
         bindE (field ''h'') (\<lambda>high.
         bindE (field ''l'') (\<lambda>low.
         bindE (field ''c'') (\<lambda>close.
         bindE (field ''v'') (\<lambda>v1.
         bindE (field ''v'') (\<lambda>v2.
           Inr [(''date'', d), (''open'', open), (''high'', high), (''low'', low),
                (''close'', close), (base_vc, v1), (''volume'', v2)]))))))))))"

text \<open>The loop \<^verbatim>\<open>for i in range(size)\<close>, over the indices still to visit.\<close>

fun mofid_loop :: "env \<Rightarrow> pyval \<Rightarrow> string \<Rightarrow> nat list \<Rightarrow> frame \<Rightarrow> error + frame" where
  "mofid_loop env json_content base_vc [] df = Inr df"
| "mofid_loop env json_content base_vc (i # rest) df =
     bindE (mofid_row env json_content base_vc i) (\<lambda>row.
       mofid_loop env json_content base_vc rest (append_row df row))"

text \<open>Lines 124 to 138: the empty table and the rows appended to it.\<close>

definition mofid_rows :: "env \<Rightarrow> string \<Rightarrow> pyval \<Rightarrow> error + frame" where
  "mofid_rows env base_vc json_content =
     (let df = [(''date'', []), (''open'', []), (''high'', []), (''low'', []), (''close'', []),
                (base_vc, []), (''volume'', [])]
      in bindE (subscript_key json_content ''t'') (\<lambda>t.
         bindE (py_len t) (\<lambda>size.
           mofid_loop env json_content base_vc [0..<size] df)))"

text \<open>Lines 124 to 151: what \<^verbatim>\<open>fetch_mofid\<close> does with the decoded response.\<close>

definition mofid_reshape :: "env \<Rightarrow> string \<Rightarrow> string \<Rightarrow> pyval \<Rightarrow> error + frame" where
  "mofid_reshape env base_symbol quote_symbol json_content =
     (let base_vc = ''Volume '' @ base_symbol;
          quote_vc = ''Volume '' @ quote_symbol
      in bindE (mofid_rows env base_vc json_content) (\<lambda>df1.
           normalize_table env (rename_columns (volume_renames base_vc quote_vc) df1)))"

definition fetch_mofid ::
  "env \<Rightarrow> cdd \<Rightarrow> string list \<Rightarrow> string \<Rightarrow> string \<Rightarrow> string \<Rightarrow> (error + frame) \<times> string list" where
  "fetch_mofid env self log base_symbol quote_symbol timeframe =
     (let timeframe1 = ''1''
      in case strftime_s env (2022, 8, 24, 0, 0) of
           Inl e \<Rightarrow> (Inl e, log)
         | Inr startEpoch \<Rightarrow>
             (case strftime_s env (2022, 8, 24, 23, 59) of
                Inl e \<Rightarrow> (Inl e, log)
              | Inr endEpoch \<Rightarrow>
                  (let (r, log') = urlopen_json env log (mofid_url base_symbol timeframe1 startEpoch endEpoch)
                   in (bindE r (mofid_reshape env base_symbol quote_symbol), log'))))"

subsection \<open>fetch_gemini\<close>

text \<open>Lines 175 and 176: a trailing \<^verbatim>\<open>h\<close> becomes \<^verbatim>\<open>hr\<close>.\<close>

definition gemini_timeframe :: "string \<Rightarrow> string" where
  "gemini_timeframe timeframe =
     (if endswith timeframe ''h'' then butlast timeframe @ ''hr'' else timeframe)"

definition gemini_reshape :: "frame \<Rightarrow> error + frame" where
  "gemini_reshape df0 =
     bindE (drop_columns [''Symbol'', ''Unix Timestamp''] (reverse_rows df0)) (\<lambda>df1.
     bindE (set_index ''date'' (map (\<lambda>(n, cs). (lower n, cs)) df1)) reset_index)"

definition fetch_gemini ::
  "env \<Rightarrow> cdd \<Rightarrow> string list \<Rightarrow> string \<Rightarrow> string \<Rightarrow> string \<Rightarrow> (error + frame) \<times> string list" where
  "fetch_gemini env self log base_symbol quote_symbol timeframe =
     (let filename = csv_filename ''gemini'' quote_symbol base_symbol (gemini_timeframe timeframe);
          (r, log') = read_csv env log (url self @ filename) 1
      in (bindE r gemini_reshape, log'))"

subsection \<open>fetch\<close>

definition fetch ::
  "env \<Rightarrow> cdd \<Rightarrow> string list \<Rightarrow> string \<Rightarrow> string \<Rightarrow> string \<Rightarrow> string \<Rightarrow> bool
     \<Rightarrow> (error + frame) \<times> string list" where
  "fetch env self log exchange_name base_symbol quote_symbol timeframe include_all_volumes =
     (if lower exchange_name = ''gemini'' then fetch_gemini env self log base_symbol quote_symbol timeframe
      else if lower exchange_name = ''mofid'' then fetch_mofid env self log base_symbol quote_symbol timeframe
      else fetch_default env self log exchange_name base_symbol quote_symbol timeframe include_all_volumes)"

section \<open>Notions of the specification and example environments\<close>

text \<open>
  \<open>casing_of s t\<close>: the string \<open>s\<close> is a casing of the lower-case word \<open>t\<close>, each of
  its characters being the corresponding letter of \<open>t\<close> or the capital of that letter.
\<close>

definition casing_of :: "string \<Rightarrow> string \<Rightarrow> bool" where
  "casing_of s t = list_all2 (\<lambda>c d. c = d \<or> c = upper_char d) s t"

text \<open>
  A well-formed response of the Mofid endpoint: an object whose entries \<^verbatim>\<open>t\<close>, \<^verbatim>\<open>o\<close>,
  \<^verbatim>\<open>h\<close>, \<^verbatim>\<open>l\<close>, \<^verbatim>\<open>c\<close>, \<^verbatim>\<open>v\<close> are arrays of one length, each entry of \<^verbatim>\<open>t\<close> being
  epoch seconds that convert to a \<^verbatim>\<open>datetime\<close>.
\<close>

definition converts_to_time :: "env \<Rightarrow> pyval \<Rightarrow> bool" where
  "converts_to_time env t =
     (case py_int env t of
        Inl e \<Rightarrow> False
      | Inr s \<Rightarrow> (case fromtimestamp env s of Inl e \<Rightarrow> False | Inr d \<Rightarrow> True))"

definition well_formed_response :: "env \<Rightarrow> pyval \<Rightarrow> bool" where
  "well_formed_response env js =
     (case js of
        PDict kvs \<Rightarrow>
          (case (map_of kvs ''t'', map_of kvs ''o'', map_of kvs ''h'', map_of kvs ''l'',
                 map_of kvs ''c'', map_of kvs ''v'') of
             (Some (PList ts), Some (PList os), Some (PList hs), Some (PList ls),
              Some (PList cs), Some (PList vs)) \<Rightarrow>
               length os = length ts \<and> length hs = length ts \<and> length ls = length ts \<and>
               length cs = length ts \<and> length vs = length ts \<and>
               list_all (converts_to_time env) ts
           | _ \<Rightarrow> False)
      | _ \<Rightarrow> False)"

text \<open>The columns of the table \<^verbatim>\<open>fetch_mofid\<close> builds from a response.\<close>

definition mofid_columns :: "string \<Rightarrow> string list" where
  "mofid_columns base_symbol =
     [''date'', ''open'', ''high'', ''low'', ''close'', ''Volume '' @ base_symbol, ''volume'']"

text \<open>
  A table as the default provider serves it, newest row first, with millisecond
  timestamps: what \<^verbatim>\<open>read_csv\<close> returns for a file of a banner line, the header line
  \<^verbatim>\<open>unix,date,symbol,open,high,low,close,Volume BTC,Volume USD\<close> and three data lines.
\<close>

definition example_table :: frame where
  "example_table =
     [(''unix'', [PInt 1700000120000, PInt 1700000060000, PInt 1700000000000]),
      (''date'', [PStr ''2023-11-14 22:15:20'', PStr ''2023-11-14 22:14:20'',
                  PStr ''2023-11-14 22:13:20'']),
      (''symbol'', [PStr ''BTC/USD'', PStr ''BTC/USD'', PStr ''BTC/USD'']),
      (''open'', [PInt 36103, PInt 36102, PInt 36101]),
      (''high'', [PInt 36113, PInt 36112, PInt 36111]),
      (''low'', [PInt 36093, PInt 36092, PInt 36091]),
      (''close'', [PInt 36104, PInt 36103, PInt 36102]),
      (''Volume BTC'', [PInt 3, PInt 2, PInt 1]),
      (''Volume USD'', [PInt 108312, PInt 72206, PInt 36102])]"

text \<open>A response of the Mofid endpoint: two one-minute bars inside the requested day.\<close>

definition example_json :: pyval where
  "example_json =
     PDict [(''s'', PStr ''ok''),
            (''t'', PList [PInt 1661315400, PInt 1661315460]),
            (''o'', PList [PInt 9500, PInt 9510]),
            (''h'', PList [PInt 9520, PInt 9530]),
            (''l'', PList [PInt 9490, PInt 9500]),
            (''c'', PList [PInt 9510, PInt 9520]),
            (''v'', PList [PInt 120000, PInt 80000])]"

text \<open>
  An environment in which one file of the default provider and the Mofid endpoint
  exist, on a platform whose local time is 4 hours 30 minutes ahead of UTC.
\<close>

definition example_env :: env where
  "example_env =
     \<lparr>csv_response = (\<lambda>log u k.
        if u = ''https://www.cryptodatadownload.com/cdd/Bitfinex_BTCUSD_1h.csv'' \<and> k = 1
        then Inr example_table else Inl (HTTPError 404)),
      json_response = (\<lambda>log u.
        if u = mofid_url ''IRO1FOLD0001'' ''1'' ''1661283000'' ''1661369340''
        then Inr example_json else Inl (HTTPError 404)),
      strftime_s = (\<lambda>d.
        if d = (2022, 8, 24, 0, 0) then Inr ''1661283000''
        else if d = (2022, 8, 24, 23, 59) then Inr ''1661369340''
        else Inl ValueError),
      fromtimestamp = (\<lambda>s. Inr (PDatetime s)),
      int_of_str = (\<lambda>s. Inl ValueError)\<rparr>"

text \<open>
  A file of the default provider that carries the volume of one symbol only, and an
  environment that serves it, with what \<^verbatim>\<open>fetch_default\<close> makes of it for either value
  of \<^verbatim>\<open>include_all_volumes\<close>.
\<close>

definition quote_only_table :: frame where
  "quote_only_table =
     [(''unix'', [PInt 1700000060000, PInt 1700000000000]),
      (''date'', [PStr ''2023-11-14 22:14:20'', PStr ''2023-11-14 22:13:20'']),
      (''symbol'', [PStr ''BTC/USD'', PStr ''BTC/USD'']),
      (''close'', [PInt 36103, PInt 36102]),
      (''Volume BTC'', [PInt 2, PInt 1])]"

definition quote_only_env :: env where
  "quote_only_env =
     \<lparr>csv_response = (\<lambda>log u k. Inr quote_only_table),
      json_response = (\<lambda>log u. Inl (HTTPError 404)),
      strftime_s = (\<lambda>d. Inl ValueError),
      fromtimestamp = (\<lambda>s. Inr (PDatetime s)),
      int_of_str = (\<lambda>s. Inl ValueError)\<rparr>"

definition quote_only_result :: frame where
  "quote_only_result =
     [(''date'', [PTimestamp 1700000000, PTimestamp 1700000060]),
      (''unix'', [PInt 1700000000, PInt 1700000060]),
      (''close'', [PInt 36102, PInt 36103])]"

definition quote_only_result_all :: frame where
  "quote_only_result_all =
     [(''date'', [PTimestamp 1700000000, PTimestamp 1700000060]),
      (''unix'', [PInt 1700000000, PInt 1700000060]),
      (''close'', [PInt 36102, PInt 36103]),
      (''volume_quote'', [PInt 1, PInt 2])]"


section \<open>Properties\<close>

subsection \<open>Decimal digits\<close>

lemma digits_length: "length (digits n) = digit_count n"
  by (induction n rule: digits.induct) (subst digits.simps, subst digit_count.simps, simp)

lemma digit_count_pos: "0 < digit_count n"
  by (subst digit_count.simps) simp

lemma digit_count_le: "0 < k \<Longrightarrow> digit_count n \<le> k \<longleftrightarrow> n < 10 ^ k"
proof (induction n arbitrary: k rule: digit_count.induct)
  case (1 n)
  show ?case
  proof (cases "n < 10")
    case True
    have "(10::nat) ^ 1 \<le> 10 ^ k" using 1(2) by (intro power_increasing) auto
    with True show ?thesis using 1(2) by (subst digit_count.simps) auto
  next
    case False
    show ?thesis
    proof (cases k)
      case 0 with 1(2) show ?thesis by simp
    next
      case (Suc j)
      show ?thesis
      proof (cases "j = 0")
        case True
        with False Suc show ?thesis
          using digit_count_pos[of "n div 10"] by (subst digit_count.simps) simp
      next
        case jpos: False
        have "digit_count (n div 10) \<le> j \<longleftrightarrow> n div 10 < 10 ^ j"
          using 1(1)[OF False, of j] jpos by simp
        moreover have "n div 10 < 10 ^ j \<longleftrightarrow> n < 10 ^ Suc j"
          by (simp add: div_less_iff_less_mult mult.commute)
        ultimately show ?thesis using False Suc by (subst digit_count.simps) simp
      qed
    qed
  qed
qed

lemma digit_count_eq: "0 < k \<Longrightarrow> digit_count n = Suc k \<longleftrightarrow> 10 ^ k \<le> n \<and> n < 10 ^ Suc k"
  using digit_count_le[of k n] digit_count_le[of "Suc k" n] by auto

lemma digit_count_13: "digit_count n = 13 \<longleftrightarrow> 1000000000000 \<le> n \<and> n < 10000000000000"
  using digit_count_eq[of 12 n] by simp

lemma digit_count_12: "digit_count n = 12 \<longleftrightarrow> 100000000000 \<le> n \<and> n < 1000000000000"
  using digit_count_eq[of 11 n] by simp

lemma digit_count_10: "digit_count n = 10 \<longleftrightarrow> 1000000000 \<le> n \<and> n < 10000000000"
  using digit_count_eq[of 9 n] by simp

lemma str_int_length:
  "length (str_int x) = (if x < 0 then Suc (decimal_digit_count x) else decimal_digit_count x)"
  by (simp add: str_int_def decimal_digit_count_def digits_length)

lemma normalize_unix_13_digits:
  assumes "1000000000000 \<le> x" and "x < 10000000000000"
  shows "normalize_unix x = x div 1000"
proof -
  have "1000000000000 \<le> nat x" and "nat x < 10000000000000"
    using assms by linarith+
  then have "digit_count (nat \<bar>x\<bar>) = 13"
    using assms by (simp add: digit_count_13)
  then show ?thesis
    using assms
    by (simp add: normalize_unix_def str_int_length decimal_digit_count_def int_truediv_def)
qed

subsection \<open>C3: normalisation of the unix column\<close>

text \<open>
  C3, as the specification words it: every integer \<open>x\<close> of the \<^verbatim>\<open>unix\<close> column becomes
  \<open>x div 1000\<close> exactly when it has 13 decimal digits, and stays as it is otherwise. The
  source counts the characters of \<^verbatim>\<open>str(x)\<close>, the minus sign included, so the negative
  integer \<open>- 100000000000\<close> of 12 digits is divided although its digit count is not 13.
\<close>

theorem unix_normalization_counterexample:
  "normalize_unix (- 100000000000) \<noteq>
     (if decimal_digit_count (- 100000000000) = 13 then (- 100000000000) div 1000
      else - 100000000000)"
  by (simp add: normalize_unix_def str_int_length decimal_digit_count_def digit_count_13
      digit_count_12 int_truediv_def)

text \<open>
  C3, amended: a non-negative \<open>x\<close> of the \<^verbatim>\<open>unix\<close> column becomes \<open>x div 1000\<close> exactly
  when it has 13 decimal digits and stays as it is otherwise; a negative \<open>x\<close> is divided
  by 1000, rounding toward zero, exactly when it has 12 decimal digits (13 characters
  with its sign) and stays as it is otherwise. In particular \<open>1700000000000\<close> becomes
  \<open>1700000000\<close>, and \<open>1700000000\<close> stays.
\<close>

theorem unix_normalization:
  "(0 \<le> x \<longrightarrow> normalize_unix x = (if decimal_digit_count x = 13 then x div 1000 else x)) \<and>
   (x < 0 \<longrightarrow> normalize_unix x = (if decimal_digit_count x = 12 then - (\<bar>x\<bar> div 1000) else x)) \<and>
   normalize_unix 1700000000000 = 1700000000 \<and>
   normalize_unix 1700000000 = 1700000000"
  by (auto simp: normalize_unix_def str_int_length int_truediv_def decimal_digit_count_def
      digit_count_13 digit_count_12)

theorem unix_normalization_witness:
  "(0::int) \<le> 1700000000000 \<and> normalize_unix 1700000000000 = 1700000000000 div 1000 \<and>
   (- 100000000000 :: int) < 0 \<and> normalize_unix (- 100000000000) = - 100000000"
  using unix_normalization [of 1700000000000] unix_normalization [of "- 100000000000"]
  by (simp add: decimal_digit_count_def digit_count_13 digit_count_12)

subsection \<open>Strings\<close>

lemma lower_char_letters:
  "lower_char c = CHR ''g'' \<longleftrightarrow> c = CHR ''g'' \<or> c = CHR ''G''"
  "lower_char c = CHR ''e'' \<longleftrightarrow> c = CHR ''e'' \<or> c = CHR ''E''"
  "lower_char c = CHR ''m'' \<longleftrightarrow> c = CHR ''m'' \<or> c = CHR ''M''"
  "lower_char c = CHR ''i'' \<longleftrightarrow> c = CHR ''i'' \<or> c = CHR ''I''"
  "lower_char c = CHR ''n'' \<longleftrightarrow> c = CHR ''n'' \<or> c = CHR ''N''"
  "lower_char c = CHR ''o'' \<longleftrightarrow> c = CHR ''o'' \<or> c = CHR ''O''"
  "lower_char c = CHR ''f'' \<longleftrightarrow> c = CHR ''f'' \<or> c = CHR ''F''"
  "lower_char c = CHR ''d'' \<longleftrightarrow> c = CHR ''d'' \<or> c = CHR ''D''"
  by (simp_all add: lower_char_def)

lemma upper_char_letters:
  "upper_char CHR ''g'' = CHR ''G''" "upper_char CHR ''e'' = CHR ''E''"
  "upper_char CHR ''m'' = CHR ''M''" "upper_char CHR ''i'' = CHR ''I''"
  "upper_char CHR ''n'' = CHR ''N''" "upper_char CHR ''o'' = CHR ''O''"
  "upper_char CHR ''f'' = CHR ''F''" "upper_char CHR ''d'' = CHR ''D''"
  by (simp_all add: upper_char_def)

lemma lower_eq_iff: "lower s = t \<longleftrightarrow> list_all2 (\<lambda>c d. lower_char c = d) s t"
  by (simp add: lower_def list_all2_conv_all_nth list_eq_iff_nth_eq)

lemma lower_gemini: "lower s = ''gemini'' \<longleftrightarrow> casing_of s ''gemini''"
  by (simp add: lower_eq_iff casing_of_def list_all2_Cons2 lower_char_letters upper_char_letters)

lemma lower_mofid: "lower s = ''mofid'' \<longleftrightarrow> casing_of s ''mofid''"
  by (simp add: lower_eq_iff casing_of_def list_all2_Cons2 lower_char_letters upper_char_letters)

lemma endswith_h: "endswith s ''h'' \<longleftrightarrow> (\<exists>p. s = p @ ''h'')"
proof
  assume "endswith s ''h''"
  then have "s \<noteq> []" and "drop (length s - 1) s = ''h''"
    by (auto simp: endswith_def)
  then have "s = take (length s - 1) s @ ''h''"
    by (metis append_take_drop_id)
  then show "\<exists>p. s = p @ ''h''" by blast
next
  assume "\<exists>p. s = p @ ''h''"
  then show "endswith s ''h''" by (auto simp: endswith_def)
qed

subsection \<open>C1: dispatch on the exchange name\<close>

text \<open>
  C1: \<^verbatim>\<open>fetch\<close> matches \<^verbatim>\<open>exchange_name\<close> without regard to case. Any casing of
  \<^verbatim>\<open>gemini\<close> gives exactly what the Gemini routine gives, any casing of \<^verbatim>\<open>mofid\<close> what
  the Mofid routine gives, and every other name what the default routine gives for that
  name: the dispatch adds no error of its own.
\<close>

theorem fetch_dispatch:
  "(casing_of exchange_name ''gemini'' \<longrightarrow>
      fetch env self log exchange_name base_symbol quote_symbol timeframe include_all_volumes =
      fetch_gemini env self log base_symbol quote_symbol timeframe) \<and>
   (casing_of exchange_name ''mofid'' \<longrightarrow>
      fetch env self log exchange_name base_symbol quote_symbol timeframe include_all_volumes =
      fetch_mofid env self log base_symbol quote_symbol timeframe) \<and>
   (\<not> casing_of exchange_name ''gemini'' \<and> \<not> casing_of exchange_name ''mofid'' \<longrightarrow>
      fetch env self log exchange_name base_symbol quote_symbol timeframe include_all_volumes =
      fetch_default env self log exchange_name base_symbol quote_symbol timeframe
        include_all_volumes)"
  by (simp add: fetch_def lower_gemini [symmetric] lower_mofid [symmetric])

theorem fetch_dispatch_witness:
  "casing_of ''Gemini'' ''gemini'' \<and>
   fetch example_env init [] ''Gemini'' ''BTC'' ''USD'' ''1h'' False =
     fetch_gemini example_env init [] ''BTC'' ''USD'' ''1h'' \<and>
   casing_of ''GEMINI'' ''gemini'' \<and>
   fetch example_env init [] ''GEMINI'' ''BTC'' ''USD'' ''1h'' False =
     fetch_gemini example_env init [] ''BTC'' ''USD'' ''1h'' \<and>
   casing_of ''MoFid'' ''mofid'' \<and>
   fetch example_env init [] ''MoFid'' ''IRO1FOLD0001'' ''IRR'' ''1h'' False =
     fetch_mofid example_env init [] ''IRO1FOLD0001'' ''IRR'' ''1h'' \<and>
   \<not> casing_of ''binance'' ''gemini'' \<and> \<not> casing_of ''binance'' ''mofid'' \<and>
   fetch example_env init [] ''binance'' ''BTC'' ''USD'' ''1h'' False =
     fetch_default example_env init [] ''binance'' ''BTC'' ''USD'' ''1h'' False"
  using fetch_dispatch [of "''Gemini''" example_env init "[]" "''BTC''" "''USD''" "''1h''" False]
    fetch_dispatch [of "''GEMINI''" example_env init "[]" "''BTC''" "''USD''" "''1h''" False]
    fetch_dispatch [of "''MoFid''" example_env init "[]" "''IRO1FOLD0001''" "''IRR''" "''1h''" False]
    fetch_dispatch [of "''binance''" example_env init "[]" "''BTC''" "''USD''" "''1h''" False]
  by (simp add: casing_of_def upper_char_def)

subsection \<open>C6: the Gemini timeframe\<close>

text \<open>
  C6: \<^verbatim>\<open>fetch_gemini\<close> turns a timeframe that ends in \<^verbatim>\<open>h\<close> into the same timeframe
  ending in \<^verbatim>\<open>hr\<close> and leaves every other timeframe as it is; the one locator it
  requests, and reads its table from, is the base URL followed by
  \<^verbatim>\<open>gemini_{quote_symbol}{base_symbol}_{timeframe}.csv\<close> with the rewritten timeframe.
  For \<^verbatim>\<open>1h\<close> the locator holds \<^verbatim>\<open>1hr\<close>, for \<^verbatim>\<open>1d\<close> it holds \<^verbatim>\<open>1d\<close>.
\<close>

theorem gemini_timeframe_rewrite:
  "gemini_timeframe (p @ ''h'') = p @ ''hr'' \<and>
   ((\<forall>p. timeframe \<noteq> p @ ''h'') \<longrightarrow> gemini_timeframe timeframe = timeframe) \<and>
   fetch_gemini env self log base_symbol quote_symbol timeframe =
     (bindE (csv_response env log
        (url self @ ''gemini_'' @ quote_symbol @ base_symbol @ ''_''
           @ gemini_timeframe timeframe @ ''.csv'') 1) gemini_reshape,
      log @ [url self @ ''gemini_'' @ quote_symbol @ base_symbol @ ''_''
           @ gemini_timeframe timeframe @ ''.csv'']) \<and>
   snd (fetch_gemini env init log ''BTC'' ''USD'' ''1h'') =
     log @ [''https://www.cryptodatadownload.com/cdd/gemini_USDBTC_1hr.csv''] \<and>
   snd (fetch_gemini env init log ''BTC'' ''USD'' ''1d'') =
     log @ [''https://www.cryptodatadownload.com/cdd/gemini_USDBTC_1d.csv'']"
  by (simp add: gemini_timeframe_def endswith_h fetch_gemini_def read_csv_def csv_filename_def
      Let_def init_def)

theorem gemini_timeframe_rewrite_witness:
  "(\<forall>p. ''1d'' \<noteq> p @ ''h'') \<and> gemini_timeframe ''1d'' = ''1d'' \<and>
   gemini_timeframe (''1'' @ ''h'') = ''1'' @ ''hr''"
  using gemini_timeframe_rewrite [of "''1''" "''1d''" example_env init "[]" "''BTC''" "''USD''"]
  by (simp add: Cons_eq_append_conv)

subsection \<open>C8: a failed retrieval\<close>

text \<open>
  C8: when the retrieval or the parse of the CSV fails in \<^verbatim>\<open>fetch_default\<close>, that very
  error reaches the caller, and the call has made one request, to the locator of the
  file asked for: no retry, no second request, no other provider.
\<close>

theorem fetch_default_error_propagates:
  "csv_response env log (url self @ csv_filename exchange_name quote_symbol base_symbol timeframe) 1
     = Inl e \<Longrightarrow>
   fetch_default env self log exchange_name base_symbol quote_symbol timeframe include_all_volumes
     = (Inl e, log @ [url self @ csv_filename exchange_name quote_symbol base_symbol timeframe])"
  by (simp add: fetch_default_def read_csv_def bindE_def)

theorem fetch_default_error_propagates_witness:
  "csv_response example_env [] (url init @ csv_filename ''Nowhere'' ''BTC'' ''USD'' ''1h'') 1
     = Inl (HTTPError 404) \<and>
   fetch_default example_env init [] ''Nowhere'' ''USD'' ''BTC'' ''1h'' False
     = (Inl (HTTPError 404), [''https://www.cryptodatadownload.com/cdd/Nowhere_BTCUSD_1h.csv''])"
  using fetch_default_error_propagates
    [of example_env "[]" init "''Nowhere''" "''BTC''" "''USD''" "''1h''" "HTTPError 404" False]
  by (simp add: example_env_def init_def csv_filename_def)

subsection \<open>C10: the volume flag on the Gemini and Mofid paths\<close>

text \<open>
  C10: when \<^verbatim>\<open>exchange_name\<close> is a casing of \<^verbatim>\<open>gemini\<close> or of \<^verbatim>\<open>mofid\<close>, \<^verbatim>\<open>fetch\<close>
  calls a routine that takes no \<^verbatim>\<open>include_all_volumes\<close> argument, and what it returns is
  the same for either value of the flag.
\<close>

theorem fetch_ignores_volume_flag:
  "casing_of exchange_name ''gemini'' \<or> casing_of exchange_name ''mofid'' \<Longrightarrow>
   fetch env self log exchange_name base_symbol quote_symbol timeframe True =
     fetch env self log exchange_name base_symbol quote_symbol timeframe False \<and>
   (fetch env self log exchange_name base_symbol quote_symbol timeframe include_all_volumes =
      fetch_gemini env self log base_symbol quote_symbol timeframe \<or>
    fetch env self log exchange_name base_symbol quote_symbol timeframe include_all_volumes =
      fetch_mofid env self log base_symbol quote_symbol timeframe)"
  by (auto simp: fetch_def lower_gemini [symmetric] lower_mofid [symmetric])

theorem fetch_ignores_volume_flag_witness:
  "(casing_of ''Gemini'' ''gemini'' \<or> casing_of ''Gemini'' ''mofid'') \<and>
   fetch example_env init [] ''Gemini'' ''BTC'' ''USD'' ''1h'' True =
     fetch example_env init [] ''Gemini'' ''BTC'' ''USD'' ''1h'' False"
  using fetch_ignores_volume_flag
    [of "''Gemini''" example_env init "[]" "''BTC''" "''USD''" "''1h''" False]
  by (simp add: casing_of_def upper_char_def)

subsection \<open>Results and tables\<close>

lemma bindE_Inr_iff: "bindE m f = Inr y \<longleftrightarrow> (\<exists>x. m = Inr x \<and> f x = Inr y)"
  by (cases m) (simp_all add: bindE_def)

lemma bindE_simps [simp]: "bindE (Inl e) f = Inl e" "bindE (Inr x) f = f x"
  by (simp_all add: bindE_def)

lemma column_names_rename:
  "column_names (rename_columns m df) = map (rename_label m) (column_names df)"
  by (simp add: rename_columns_def column_names_def split_def o_def)

lemma getitem_missing:
  "key \<notin> set (column_names df) \<Longrightarrow> getitem df key = Inl (KeyError [key])"
proof -
  assume "key \<notin> set (column_names df)"
  then have "filter (\<lambda>(n, cs). n = key) df = []"
    by (force simp: filter_empty_conv column_names_def)
  then show ?thesis by (simp add: getitem_def)
qed

lemma normalize_table_no_unix:
  "''unix'' \<notin> set (column_names df) \<Longrightarrow> normalize_table env df = Inl (KeyError [''unix''])"
  by (simp add: normalize_table_def getitem_missing)

subsection \<open>The table of fetch_mofid\<close>

lemma column_names_append_row:
  assumes "set (map fst row) \<subseteq> set (column_names df)"
  shows "column_names (append_row df row) = column_names df"
proof -
  have "filter (\<lambda>(l, v). l \<notin> set (column_names df)) row = []"
    using assms by (auto simp: filter_empty_conv)
  then show ?thesis
    by (simp add: append_row_def column_names_def Let_def split_def o_def)
qed

lemma mofid_row_keys:
  "mofid_row env js base_vc i = Inr row \<Longrightarrow>
   map fst row = [''date'', ''open'', ''high'', ''low'', ''close'', base_vc, ''volume'']"
  by (auto simp: mofid_row_def Let_def bindE_Inr_iff)

lemma mofid_loop_names:
  "mofid_loop env js base_vc is df = Inr df' \<Longrightarrow>
   column_names df = [''date'', ''open'', ''high'', ''low'', ''close'', base_vc, ''volume''] \<Longrightarrow>
   column_names df' = column_names df"
proof (induction "is" arbitrary: df)
  case Nil
  then show ?case by simp
next
  case (Cons i rest)
  from Cons.prems(1) obtain row where
    row: "mofid_row env js base_vc i = Inr row" and
    loop: "mofid_loop env js base_vc rest (append_row df row) = Inr df'"
    by (auto simp: bindE_Inr_iff)
  have names: "column_names (append_row df row) = column_names df"
    using mofid_row_keys [OF row] Cons.prems(2) by (intro column_names_append_row) simp
  from Cons.IH [OF loop] names Cons.prems(2) show ?case by simp
qed

lemma mofid_rows_names:
  assumes "mofid_rows env (''Volume '' @ b) js = Inr df"
  shows "column_names df = mofid_columns b"
proof -
  from assms obtain n where
    "mofid_loop env js (''Volume '' @ b) [0..<n]
       [(''date'', []), (''open'', []), (''high'', []), (''low'', []), (''close'', []),
        (''Volume '' @ b, []), (''volume'', [])] = Inr df"
    unfolding mofid_rows_def Let_def bindE_Inr_iff by blast
  from mofid_loop_names [OF this] show ?thesis
    by (simp add: column_names_def mofid_columns_def)
qed

lemma mofid_renamed_no_unix:
  "column_names df = mofid_columns b \<Longrightarrow>
   ''unix'' \<notin> set (column_names
      (rename_columns (volume_renames (''Volume '' @ b) (''Volume '' @ q)) df))"
  by (simp add: column_names_rename rename_label_def volume_renames_def mofid_columns_def)

lemma mofid_reshape_after_rows:
  assumes "mofid_rows env (''Volume '' @ b) js = Inr df"
  shows "mofid_reshape env b q js = Inl (KeyError [''unix''])"
proof -
  have "normalize_table env
      (rename_columns (volume_renames (''Volume '' @ b) (''Volume '' @ q)) df)
        = Inl (KeyError [''unix''])"
    using mofid_rows_names [OF assms] by (intro normalize_table_no_unix mofid_renamed_no_unix)
  then show ?thesis
    using assms unfolding mofid_reshape_def Let_def by simp
qed

lemma mofid_reshape_fails: "\<exists>e. mofid_reshape env b q js = Inl e"
proof (cases "mofid_rows env (''Volume '' @ b) js")
  case (Inl e)
  then show ?thesis unfolding mofid_reshape_def Let_def by simp
next
  case (Inr df)
  from mofid_reshape_after_rows [OF this] show ?thesis by blast
qed

lemma fetch_mofid_fails: "\<exists>e. fst (fetch_mofid env self log b q tf) = Inl e"
proof (cases "strftime_s env (2022, 8, 24, 0, 0)")
  case (Inl e)
  then show ?thesis by (simp add: fetch_mofid_def)
next
  case s: (Inr startEpoch)
  show ?thesis
  proof (cases "strftime_s env (2022, 8, 24, 23, 59)")
    case (Inl e)
    with s show ?thesis by (simp add: fetch_mofid_def)
  next
    case e: (Inr endEpoch)
    show ?thesis
    proof (cases "json_response env log (mofid_url b ''1'' startEpoch endEpoch)")
      case (Inl err)
      with s e show ?thesis by (simp add: fetch_mofid_def urlopen_json_def)
    next
      case (Inr js)
      with s e mofid_reshape_fails [of env b q js] show ?thesis
        by (auto simp: fetch_mofid_def urlopen_json_def)
    qed
  qed
qed

lemma well_formed_responseD:
  assumes "well_formed_response env js"
  obtains kvs ts os hs ls cs vs where
    "js = PDict kvs" "map_of kvs ''t'' = Some (PList ts)" "map_of kvs ''o'' = Some (PList os)"
    "map_of kvs ''h'' = Some (PList hs)" "map_of kvs ''l'' = Some (PList ls)"
    "map_of kvs ''c'' = Some (PList cs)" "map_of kvs ''v'' = Some (PList vs)"
    "length os = length ts" "length hs = length ts" "length ls = length ts"
    "length cs = length ts" "length vs = length ts" "list_all (converts_to_time env) ts"
  using assms unfolding well_formed_response_def
  by (auto split: pyval.splits option.splits)

lemma mofid_row_well_formed:
  assumes "well_formed_response env js" and "i < n" and "subscript_key js ''t'' = Inr t"
    and "py_len t = Inr n"
  shows "\<exists>row. mofid_row env js base_vc i = Inr row"
proof -
  from assms(1) obtain kvs ts os hs ls cs vs where wf:
    "js = PDict kvs" "map_of kvs ''t'' = Some (PList ts)" "map_of kvs ''o'' = Some (PList os)"
    "map_of kvs ''h'' = Some (PList hs)" "map_of kvs ''l'' = Some (PList ls)"
    "map_of kvs ''c'' = Some (PList cs)" "map_of kvs ''v'' = Some (PList vs)"
    "length os = length ts" "length hs = length ts" "length ls = length ts"
    "length cs = length ts" "length vs = length ts" "list_all (converts_to_time env) ts"
    by (rule well_formed_responseD)
  from wf(1,2) assms(3,4) have n: "n = length ts" by auto
  with assms(2) wf(13) have "converts_to_time env (ts ! i)"
    by (simp add: list_all_length)
  then obtain s d where "py_int env (ts ! i) = Inr s" and "fromtimestamp env s = Inr d"
    by (auto simp: converts_to_time_def split: sum.splits)
  then show ?thesis
    using wf assms(2) n by (simp add: mofid_row_def Let_def)
qed

lemma mofid_loop_well_formed:
  assumes "well_formed_response env js" and "subscript_key js ''t'' = Inr t"
    and "py_len t = Inr n"
  shows "\<forall>i \<in> set is. i < n \<Longrightarrow> \<exists>df'. mofid_loop env js base_vc is df = Inr df'"
proof (induction "is" arbitrary: df)
  case Nil
  then show ?case by simp
next
  case (Cons i rest)
  then have "i < n" by simp
  from mofid_row_well_formed [OF assms(1) this assms(2,3)] obtain row where
    "mofid_row env js base_vc i = Inr row" by blast
  moreover from Cons obtain df' where
    "mofid_loop env js base_vc rest (append_row df row) = Inr df'" by fastforce
  ultimately show ?case by simp
qed

lemma mofid_rows_well_formed:
  assumes "well_formed_response env js"
  shows "\<exists>df. mofid_rows env base_vc js = Inr df"
proof -
  from assms obtain kvs ts where "js = PDict kvs" "map_of kvs ''t'' = Some (PList ts)"
    by (rule well_formed_responseD)
  then have t: "subscript_key js ''t'' = Inr (PList ts)" and n: "py_len (PList ts) = Inr (length ts)"
    by simp_all
  have "\<forall>i \<in> set [0..<length ts]. i < length ts" by simp
  from mofid_loop_well_formed [OF assms t n this] t n show ?thesis
    unfolding mofid_rows_def Let_def by simp
qed

subsection \<open>C5: fetch_mofid raises\<close>

text \<open>
  C5: for every well-formed Mofid response, \<^verbatim>\<open>fetch_mofid\<close> builds its rows, a table with
  the columns \<^verbatim>\<open>date\<close>, \<^verbatim>\<open>open\<close>, \<^verbatim>\<open>high\<close>, \<^verbatim>\<open>low\<close>, \<^verbatim>\<open>close\<close>, the base-symbol volume
  column and \<^verbatim>\<open>volume\<close>, and then raises \<^verbatim>\<open>KeyError\<close> for the \<^verbatim>\<open>unix\<close> column, which was
  never created; and on every input whatever \<^verbatim>\<open>fetch_mofid\<close> ends in an error, so it never
  returns a table.
\<close>

theorem fetch_mofid_raises:
  "(strftime_s env (2022, 8, 24, 0, 0) = Inr startEpoch \<and>
    strftime_s env (2022, 8, 24, 23, 59) = Inr endEpoch \<and>
    json_response env log (mofid_url base_symbol ''1'' startEpoch endEpoch) = Inr js \<and>
    well_formed_response env js \<longrightarrow>
      (\<exists>df. mofid_rows env (''Volume '' @ base_symbol) js = Inr df \<and>
            column_names df = mofid_columns base_symbol \<and>
            ''unix'' \<notin> set (column_names df)) \<and>
      fst (fetch_mofid env self log base_symbol quote_symbol timeframe)
        = Inl (KeyError [''unix''])) \<and>
   (\<exists>e. fst (fetch_mofid env self log base_symbol quote_symbol timeframe) = Inl e)"
proof (intro conjI impI)
  assume a: "strftime_s env (2022, 8, 24, 0, 0) = Inr startEpoch \<and>
    strftime_s env (2022, 8, 24, 23, 59) = Inr endEpoch \<and>
    json_response env log (mofid_url base_symbol ''1'' startEpoch endEpoch) = Inr js \<and>
    well_formed_response env js"
  then obtain df where df: "mofid_rows env (''Volume '' @ base_symbol) js = Inr df"
    using mofid_rows_well_formed by blast
  have names: "column_names df = mofid_columns base_symbol"
    using df by (rule mofid_rows_names)
  then have "''unix'' \<notin> set (column_names df)"
    by (simp add: mofid_columns_def)
  with df names show "\<exists>df. mofid_rows env (''Volume '' @ base_symbol) js = Inr df \<and>
            column_names df = mofid_columns base_symbol \<and>
            ''unix'' \<notin> set (column_names df)" by blast
  from a mofid_reshape_after_rows [OF df, of quote_symbol]
  show "fst (fetch_mofid env self log base_symbol quote_symbol timeframe)
        = Inl (KeyError [''unix''])"
    by (simp add: fetch_mofid_def urlopen_json_def)
next
  show "\<exists>e. fst (fetch_mofid env self log base_symbol quote_symbol timeframe) = Inl e"
    by (rule fetch_mofid_fails)
qed

theorem fetch_mofid_raises_witness:
  "strftime_s example_env (2022, 8, 24, 0, 0) = Inr ''1661283000'' \<and>
   strftime_s example_env (2022, 8, 24, 23, 59) = Inr ''1661369340'' \<and>
   json_response example_env [] (mofid_url ''IRO1FOLD0001'' ''1'' ''1661283000'' ''1661369340'')
     = Inr example_json \<and>
   well_formed_response example_env example_json \<and>
   fst (fetch_mofid example_env init [] ''IRO1FOLD0001'' ''IRR'' ''1'') = Inl (KeyError [''unix''])"
  using fetch_mofid_raises [of example_env "''1661283000''" "''1661369340''" "[]"
      "''IRO1FOLD0001''" example_json init "''IRR''" "''1''"]
  by (simp add: example_env_def example_json_def well_formed_response_def converts_to_time_def)

subsection \<open>C4: the fixed window of fetch_mofid\<close>

text \<open>
  C4 says that \<^verbatim>\<open>fetch_mofid\<close> ignores the timeframe it is given, always asks for
  resolution 1 between the epoch seconds of 2022-08-24 00:00 and 23:59 local time, and
  returns the rows of that day. The first part holds: the outcome is the same for any two
  timeframes. The second does not: on the well-formed response below, whose two rows lie
  inside the day, the one request made is the expected one, and the call ends in
  \<^verbatim>\<open>KeyError\<close> for \<^verbatim>\<open>unix\<close> instead of returning the rows.
\<close>

theorem fetch_mofid_fixed_window:
  "fetch_mofid env self log base_symbol quote_symbol timeframe =
     fetch_mofid env self log base_symbol quote_symbol timeframe' \<and>
   fetch_mofid example_env init [] ''IRO1FOLD0001'' ''IRR'' ''1d'' =
     (Inl (KeyError [''unix'']),
      [''https://rlcchartapi.mofidonline.com/ChartData/history?symbol=IRO1FOLD0001''
         @ ''&resolution=1&from=1661283000&to=1661369340''])"
proof
  show "fetch_mofid env self log base_symbol quote_symbol timeframe =
     fetch_mofid env self log base_symbol quote_symbol timeframe'"
    by (simp add: fetch_mofid_def)
next
  have "well_formed_response example_env example_json"
    by (simp add: example_env_def example_json_def well_formed_response_def
        converts_to_time_def)
  then obtain df where "mofid_rows example_env (''Volume '' @ ''IRO1FOLD0001'') example_json = Inr df"
    using mofid_rows_well_formed by blast
  from mofid_reshape_after_rows [OF this, of "''IRR''"]
  show "fetch_mofid example_env init [] ''IRO1FOLD0001'' ''IRR'' ''1d'' =
     (Inl (KeyError [''unix'']),
      [''https://rlcchartapi.mofidonline.com/ChartData/history?symbol=IRO1FOLD0001''
         @ ''&resolution=1&from=1661283000&to=1661369340''])"
    by (simp add: fetch_mofid_def urlopen_json_def example_env_def mofid_url_def)
qed

subsection \<open>Table operations\<close>

lemma column_names_reverse_rows: "column_names (reverse_rows df) = column_names df"
  by (simp add: reverse_rows_def column_names_def split_def o_def)

lemma drop_columns_Inr:
  "drop_columns labels df = Inr df' \<longleftrightarrow>
     set labels \<subseteq> set (column_names df) \<and> df' = filter (\<lambda>(n, cs). n \<notin> set labels) df"
  by (auto simp: drop_columns_def Let_def filter_empty_conv)

lemma column_names_filter:
  "column_names (filter (\<lambda>(n, cs). P n) df) = filter P (column_names df)"
  by (simp add: column_names_def filter_map o_def split_def)

lemma replace_names:
  "map fst (map (\<lambda>(n, old). if n = key then (n, cells) else (n, old)) df) = map fst df"
  by (induction df) auto

lemma replace_absent:
  "key \<notin> set (map fst df) \<Longrightarrow>
   map (\<lambda>(n, old). if n = key then (n, cells) else (n, old)) df = df"
  by (induction df) auto

lemma replace_replace:
  "map (\<lambda>(n, old). if n = key then (n, b) else (n, old))
     (map (\<lambda>(n, old). if n = key then (n, a) else (n, old)) df) =
   map (\<lambda>(n, old). if n = key then (n, b) else (n, old)) df"
  by (induction df) auto

lemma filter_key_replace:
  "filter (\<lambda>(n, cs). n = key) (map (\<lambda>(n, old). if n = key then (n, cells) else (n, old)) df) =
   map (\<lambda>c. (key, cells)) (filter (\<lambda>(n, cs). n = key) df)"
  by (induction df) auto

lemma filter_other_replace:
  "filter (\<lambda>(n, cs). n \<noteq> key) (map (\<lambda>(n, old). if n = key then (n, cells) else (n, old)) df) =
   filter (\<lambda>(n, cs). n \<noteq> key) df"
  by (induction df) auto

lemma filter_key_absent:
  "key \<notin> set (map fst df) \<Longrightarrow> filter (\<lambda>(n, cs). n = key) df = []"
  by (induction df) auto

lemma column_names_setitem:
  "column_names (setitem df key cells) =
     (if key \<in> set (column_names df) then column_names df else column_names df @ [key])"
  by (simp del: map_map add: setitem_def column_names_def replace_names)

lemma setitem_setitem: "setitem (setitem df key a) key b = setitem df key b"
proof (cases "key \<in> set (column_names df)")
  case True
  then show ?thesis
    by (simp del: map_map add: setitem_def column_names_def replace_names replace_replace)
next
  case False
  then show ?thesis
    by (simp add: setitem_def column_names_def replace_absent)
qed

lemma filter_key_setitem:
  "filter (\<lambda>(n, cs). n = key) (setitem df key cells) =
     (if key \<in> set (column_names df)
      then map (\<lambda>c. (key, cells)) (filter (\<lambda>(n, cs). n = key) df)
      else [(key, cells)])"
  by (simp add: setitem_def column_names_def filter_key_replace filter_key_absent)

lemma filter_other_setitem:
  "filter (\<lambda>(n, cs). n \<noteq> key) (setitem df key cells) = filter (\<lambda>(n, cs). n \<noteq> key) df"
  by (simp add: setitem_def column_names_def filter_other_replace)

lemma set_index_setitem:
  assumes "set_index key (setitem df key cells) = Inr idf"
  shows "idf = ((key, cells), filter (\<lambda>(n, cs). n \<noteq> key) df)"
proof -
  from assms obtain c others where
    c: "filter (\<lambda>(n, cs). n = key) (setitem df key cells) = c # others" and
    idf: "idf = (c, filter (\<lambda>(n, cs). n \<noteq> key) (setitem df key cells))"
    unfolding set_index_def by (auto split: list.splits if_splits)
  have "c \<in> set (filter (\<lambda>(n, cs). n = key) (setitem df key cells))"
    unfolding c by simp
  then have "c = (key, cells)"
    by (auto simp: filter_key_setitem split: if_splits)
  with idf show ?thesis by (simp add: filter_other_setitem)
qed

lemma to_datetime_s_Inr:
  "to_datetime_s xs = Inr dates \<longleftrightarrow>
     (\<forall>x \<in> set xs. timestamp_ok x) \<and> dates = map to_timestamp xs"
  by (auto simp: to_datetime_s_def)

lemma reset_index_Inr:
  "reset_index idf = Inr out \<longleftrightarrow>
     fst (fst idf) \<notin> set (column_names (snd idf)) \<and> out = fst idf # snd idf"
  by (auto simp: reset_index_def)

lemma getitem_Inr_names: "getitem df key = Inr cells \<Longrightarrow> key \<in> set (column_names df)"
  by (cases "key \<in> set (column_names df)") (simp_all add: getitem_missing)

lemma normalize_table_Inr:
  assumes "normalize_table env df = Inr out"
  obtains u xs where
    "getitem df ''unix'' = Inr u" "astype_int env u = Inr xs"
    "\<forall>x \<in> set xs. timestamp_ok (normalize_unix x)"
    "out = (''date'', map (\<lambda>x. to_timestamp (normalize_unix x)) xs) #
           map (\<lambda>(n, cs). (lower n, cs))
             (filter (\<lambda>(n, cs). n \<noteq> ''date'')
                (setitem df ''unix'' (map (\<lambda>x. PInt (normalize_unix x)) xs)))"
proof -
  from assms obtain u xs dates idf where
    u: "getitem df ''unix'' = Inr u" and xs: "astype_int env u = Inr xs" and
    dates: "to_datetime_s (map normalize_unix xs) = Inr dates" and
    idx: "set_index ''date''
            (setitem (setitem (setitem df ''unix'' (map PInt xs)) ''unix''
               (map PInt (map normalize_unix xs))) ''date'' dates) = Inr idf" and
    out: "reset_index (lower_columns idf) = Inr out"
    unfolding normalize_table_def Let_def bindE_Inr_iff by blast
  from dates have d: "dates = map to_timestamp (map normalize_unix xs)" and
    bound: "\<forall>x \<in> set xs. timestamp_ok (normalize_unix x)"
    by (auto simp: to_datetime_s_Inr)
  from set_index_setitem [OF idx] have
    "idf = ((''date'', dates), filter (\<lambda>(n, cs). n \<noteq> ''date'')
        (setitem df ''unix'' (map PInt (map normalize_unix xs))))"
    by (simp add: setitem_setitem)
  with out d have "out = (''date'', map (\<lambda>x. to_timestamp (normalize_unix x)) xs) #
           map (\<lambda>(n, cs). (lower n, cs))
             (filter (\<lambda>(n, cs). n \<noteq> ''date'')
                (setitem df ''unix'' (map (\<lambda>x. PInt (normalize_unix x)) xs)))"
    by (simp add: reset_index_Inr lower_columns_def o_def)
  with u xs bound show ?thesis by (rule that)
qed

lemma setitem_member:
  assumes "key \<in> set (column_names df)"
  shows "(key, cells) \<in> set (setitem df key cells)"
proof -
  define f :: "column \<Rightarrow> column"
    where "f = (\<lambda>(n, old). if n = key then (n, cells) else (n, old))"
  from assms have eq: "setitem df key cells = map f df"
    by (simp only: setitem_def f_def if_True)
  from assms obtain c where c: "c \<in> set df" and k: "fst c = key"
    unfolding column_names_def by (metis (no_types) imageE set_map)
  have "f c = (key, cells)"
    by (simp add: f_def split_def k)
  moreover from c have "f c \<in> set (map f df)"
    by (simp only: set_map) (rule imageI)
  ultimately show ?thesis
    by (simp only: eq)
qed

lemma filter_key_rename:
  assumes "\<And>n. rename_label m n = key \<longleftrightarrow> n = key"
  shows "filter (\<lambda>(n, cs). n = key) (rename_columns m df) = filter (\<lambda>(n, cs). n = key) df"
proof -
  have r: "rename_label m key = key" using assms by simp
  show ?thesis
  proof (induction df)
    case Nil
    show ?case by (simp add: rename_columns_def)
  next
    case (Cons c df)
    obtain n cs where c: "c = (n, cs)" by (cases c)
    from Cons show ?case
      by (cases "n = key") (simp_all add: rename_columns_def c assms r)
  qed
qed

lemma getitem_rename:
  assumes "\<And>n. rename_label m n = key \<longleftrightarrow> n = key"
  shows "getitem (rename_columns m df) key = getitem df key"
  unfolding getitem_def by (simp only: filter_key_rename [OF assms])

lemma filter_key_filter:
  "P key \<Longrightarrow> filter (\<lambda>(n, cs). n = key) (filter (\<lambda>(n, cs). P n) df) =
     filter (\<lambda>(n, cs). n = key) df"
  by (induction df) auto


lemma getitem_filter:
  "P key \<Longrightarrow> getitem (filter (\<lambda>(n, cs). P n) df) key = getitem df key"
  unfolding getitem_def by (simp only: filter_key_filter)


lemma filter_key_reverse_rows:
  "filter (\<lambda>(n, cs). n = key) (reverse_rows df) =
   map (\<lambda>(n, cs). (n, rev cs)) (filter (\<lambda>(n, cs). n = key) df)"
  by (induction df) (auto simp: reverse_rows_def)


lemma getitem_reverse_rows:
  "getitem (reverse_rows df) key = (case getitem df key of Inl e \<Rightarrow> Inl e | Inr u \<Rightarrow> Inr (rev u))"
proof (cases "filter (\<lambda>(n, cs). n = key) df")
  case Nil
  then show ?thesis by (simp add: getitem_def filter_key_reverse_rows)
next
  case (Cons c rest)
  then show ?thesis
    by (cases c; cases rest) (simp_all add: getitem_def filter_key_reverse_rows)
qed


lemma volume_renames_unix:
  "rename_label (volume_renames (''Volume '' @ b) (''Volume '' @ q)) n = ''unix'' \<longleftrightarrow> n = ''unix''"
  by (simp add: rename_label_def volume_renames_def)


lemma lower_unix: "lower ''unix'' = ''unix''"
  by (simp add: lower_def lower_char_def)



lemma member_relabel:
  assumes "(n, cs) \<in> set df"
  shows "(g n, cs) \<in> set (map (\<lambda>(n, cs). (g n, cs)) df)"
proof -
  have "(\<lambda>(n, cs). (g n, cs)) (n, cs) \<in> (\<lambda>(n, cs). (g n, cs)) ` set df"
    using assms by (rule imageI)
  then show ?thesis by simp
qed

subsection \<open>The table of fetch_default\<close>

lemma default_reshape_Inr:
  assumes "default_reshape env b q v df0 = Inr out"
  obtains df3 where
    "''symbol'' \<in> set (column_names df0)"
    "normalize_table env
       (rename_columns (volume_renames (''Volume '' @ b) (''Volume '' @ q))
          (filter (\<lambda>(n, cs). n \<noteq> ''symbol'') (reverse_rows df0))) = Inr df3"
    "v \<longrightarrow> out = df3"
    "\<not> v \<longrightarrow> ''volume_quote'' \<in> set (column_names df3) \<and>
       out = rename_columns [''volume_base'' \<mapsto> ''volume'']
               (filter (\<lambda>(n, cs). n \<noteq> ''volume_quote'') df3)"
proof -
  from assms obtain df2 df3 where
    df2: "drop_columns [''symbol''] (reverse_rows df0) = Inr df2" and
    df3: "normalize_table env
       (rename_columns (volume_renames (''Volume '' @ b) (''Volume '' @ q)) df2) = Inr df3" and
    out: "(if \<not> v
           then bindE (drop_columns [''volume_quote''] df3)
                  (\<lambda>df4. Inr (rename_columns [''volume_base'' \<mapsto> ''volume''] df4))
           else Inr df3) = Inr out"
    unfolding default_reshape_def Let_def bindE_Inr_iff by blast
  from df2 have sym: "''symbol'' \<in> set (column_names df0)" and
    df2': "df2 = filter (\<lambda>(n, cs). n \<noteq> ''symbol'') (reverse_rows df0)"
    by (simp_all add: drop_columns_Inr column_names_reverse_rows)
  have a: "v \<longrightarrow> out = df3" using out by (cases v) simp_all
  have b: "\<not> v \<longrightarrow> ''volume_quote'' \<in> set (column_names df3) \<and>
       out = rename_columns [''volume_base'' \<mapsto> ''volume'']
               (filter (\<lambda>(n, cs). n \<noteq> ''volume_quote'') df3)"
    using out by (cases v) (auto simp: bindE_Inr_iff drop_columns_Inr)
  from sym df3 [unfolded df2'] a b show ?thesis by (rule that)
qed

lemma default_reshape_unix:
  assumes "default_reshape env b q v df0 = Inr out"
  shows "\<exists>u xs. getitem df0 ''unix'' = Inr u \<and> astype_int env (rev u) = Inr xs \<and>
           (''unix'', map (\<lambda>x. PInt (normalize_unix x)) xs) \<in> set out"
proof -
  define df where "df = rename_columns (volume_renames (''Volume '' @ b) (''Volume '' @ q))
          (filter (\<lambda>(n, cs). n \<noteq> ''symbol'') (reverse_rows df0))"
  from assms obtain df3 where
    df3: "normalize_table env df = Inr df3" and
    a: "v \<longrightarrow> out = df3" and
    b: "\<not> v \<longrightarrow> ''volume_quote'' \<in> set (column_names df3) \<and>
       out = rename_columns [''volume_base'' \<mapsto> ''volume'']
               (filter (\<lambda>(n, cs). n \<noteq> ''volume_quote'') df3)"
    unfolding df_def by (rule default_reshape_Inr)
  from df3 obtain u' xs where
    u': "getitem df ''unix'' = Inr u'" and xs: "astype_int env u' = Inr xs" and
    df3_eq: "df3 = (''date'', map (\<lambda>x. to_timestamp (normalize_unix x)) xs) #
           map (\<lambda>(n, cs). (lower n, cs))
             (filter (\<lambda>(n, cs). n \<noteq> ''date'')
                (setitem df ''unix'' (map (\<lambda>x. PInt (normalize_unix x)) xs)))"
    by (rule normalize_table_Inr)
  let ?B = "map (\<lambda>x. PInt (normalize_unix x)) xs"
  have "getitem df ''unix'' = getitem (reverse_rows df0) ''unix''"
    unfolding df_def
    by (subst getitem_rename [OF volume_renames_unix]) (simp add: getitem_filter)
  with u' obtain u where u: "getitem df0 ''unix'' = Inr u" and "u' = rev u"
    by (auto simp: getitem_reverse_rows split: sum.splits)
  with xs have xs': "astype_int env (rev u) = Inr xs" by simp
  have "(''unix'', ?B) \<in> set (setitem df ''unix'' ?B)"
    using getitem_Inr_names [OF u'] by (rule setitem_member)
  then have "(''unix'', ?B) \<in> set (filter (\<lambda>(n, cs). n \<noteq> ''date'') (setitem df ''unix'' ?B))"
    by simp
  then have "(lower ''unix'', ?B) \<in> set (map (\<lambda>(n, cs). (lower n, cs))
      (filter (\<lambda>(n, cs). n \<noteq> ''date'') (setitem df ''unix'' ?B)))"
    by (rule member_relabel)
  then have "(lower ''unix'', ?B) \<in> set df3"
    unfolding df3_eq by (rule list.set_intros(2))
  then have in3: "(''unix'', ?B) \<in> set df3"
    by (simp add: lower_unix)
  have "(''unix'', ?B) \<in> set out"
  proof (cases v)
    case True
    with a in3 show ?thesis by simp
  next
    case False
    from in3 have "(''unix'', ?B) \<in> set (filter (\<lambda>(n, cs). n \<noteq> ''volume_quote'') df3)"
      by simp
    then have "(rename_label [''volume_base'' \<mapsto> ''volume''] ''unix'', ?B) \<in>
        set (rename_columns [''volume_base'' \<mapsto> ''volume'']
               (filter (\<lambda>(n, cs). n \<noteq> ''volume_quote'') df3))"
      unfolding rename_columns_def by (rule member_relabel)
    with b False show ?thesis by (simp add: rename_label_def)
  qed
  with u xs' show ?thesis by blast
qed

lemma filter_key_replace_other:
  "k \<noteq> key \<Longrightarrow>
   filter (\<lambda>(n, cs). n = k) (map (\<lambda>(n, old). if n = key then (n, cells) else (n, old)) df) =
   filter (\<lambda>(n, cs). n = k) df"
  by (induction df) (auto split: if_splits)

lemma filter_key_setitem_other:
  assumes "k \<noteq> key"
  shows "filter (\<lambda>(n, cs). n = k) (setitem df key cells) = filter (\<lambda>(n, cs). n = k) df"
proof (cases "key \<in> set (column_names df)")
  case True
  then show ?thesis
    using assms by (simp add: setitem_def filter_key_replace_other)
next
  case False
  then show ?thesis
    using assms by (simp add: setitem_def)
qed

lemma filter_key_present:
  "key \<in> set (column_names df) \<Longrightarrow> filter (\<lambda>(n, cs). n = key) df \<noteq> []"
  by (induction df) (auto simp: column_names_def)

lemma column_names_relabel:
  "column_names (map (\<lambda>(n, cs). (g n, cs)) df) = map g (column_names df)"
  by (induction df) (auto simp: column_names_def)

lemma is_time_to_timestamp: "list_all is_time (map to_timestamp xs)"
  by (induction xs) (simp_all add: is_time_def to_timestamp_def)

lemma set_index_date_setitem:
  assumes "list_all is_time cells"
  shows "set_index key (setitem df key cells) =
           Inr ((key, cells), filter (\<lambda>(n, cs). n \<noteq> key) df)"
proof -
  define F where "F = filter (\<lambda>(n, cs). n = key) (setitem df key cells)"
  have all: "\<forall>c \<in> set F. c = (key, cells)"
    unfolding F_def by (auto simp: filter_key_setitem split: if_splits)
  have "F \<noteq> []"
    unfolding F_def
    by (cases "key \<in> set (column_names df)")
      (simp_all add: filter_key_setitem filter_key_present)
  then obtain c others where F: "F = c # others"
    by (cases F) auto
  with all have c: "c = (key, cells)" by simp
  from all assms have "list_all (\<lambda>(n, cs). list_all is_time cs) F"
    by (auto simp: list_all_iff)
  with F c have "(case F of [] \<Rightarrow> Inl (KeyError [key])
      | c # others \<Rightarrow>
          if others = [] \<or> list_all (\<lambda>(n, cs). list_all is_time cs) (c # others)
          then Inr (c, filter (\<lambda>(n, cs). n \<noteq> key) (setitem df key cells))
          else Inl ValueError) =
      Inr ((key, cells), filter (\<lambda>(n, cs). n \<noteq> key) (setitem df key cells))"
    by simp
  then show ?thesis
    unfolding set_index_def F_def by (simp only: filter_other_setitem)
qed

lemma normalize_table_success:
  assumes u: "getitem df ''unix'' = Inr u" and xs: "astype_int env u = Inr xs"
    and bound: "\<forall>x \<in> set xs. timestamp_ok (normalize_unix x)"
    and fresh: "''date'' \<notin> set (map lower (filter (\<lambda>n. n \<noteq> ''date'') (column_names df)))"
  shows "normalize_table env df =
     Inr ((''date'', map (\<lambda>x. to_timestamp (normalize_unix x)) xs) #
          map (\<lambda>(n, cs). (lower n, cs))
            (filter (\<lambda>(n, cs). n \<noteq> ''date'')
               (setitem df ''unix'' (map (\<lambda>x. PInt (normalize_unix x)) xs))))"
proof -
  define df2 where "df2 = setitem df ''unix'' (map (\<lambda>x. PInt (normalize_unix x)) xs)"
  define D where "D = map (\<lambda>x. to_timestamp (normalize_unix x)) xs"
  have D: "D = map to_timestamp (map normalize_unix xs)"
    by (simp add: D_def o_def)
  have dt: "to_datetime_s (map normalize_unix xs) = Inr D"
    using bound by (simp add: to_datetime_s_def D)
  have "list_all is_time D"
    unfolding D by (rule is_time_to_timestamp)
  then have si: "set_index ''date'' (setitem df2 ''date'' D) =
      Inr ((''date'', D), filter (\<lambda>(n, cs). n \<noteq> ''date'') df2)"
    by (rule set_index_date_setitem)
  have names2: "column_names df2 = column_names df"
    using getitem_Inr_names [OF u] by (simp add: df2_def column_names_setitem)
  have "column_names (map (\<lambda>(n, cs). (lower n, cs)) (filter (\<lambda>(n, cs). n \<noteq> ''date'') df2)) =
      map lower (filter (\<lambda>n. n \<noteq> ''date'') (column_names df))"
    by (simp only: column_names_relabel column_names_filter names2)
  with fresh have ri: "reset_index (lower_columns
      ((''date'', D), filter (\<lambda>(n, cs). n \<noteq> ''date'') df2)) =
      Inr ((''date'', D) # map (\<lambda>(n, cs). (lower n, cs)) (filter (\<lambda>(n, cs). n \<noteq> ''date'') df2))"
    by (simp add: reset_index_def lower_columns_def)
  have "normalize_table env df =
      bindE (set_index ''date'' (setitem df2 ''date'' D)) (\<lambda>idf. reset_index (lower_columns idf))"
    unfolding normalize_table_def Let_def
    by (simp only: u xs bindE_simps dt setitem_setitem df2_def map_map o_def)
  also have "\<dots> = Inr ((''date'', D) #
      map (\<lambda>(n, cs). (lower n, cs)) (filter (\<lambda>(n, cs). n \<noteq> ''date'') df2))"
    by (simp only: si bindE_simps ri)
  finally show ?thesis
    by (simp only: df2_def D_def)
qed

lemma length_filter_names:
  "length (filter (\<lambda>(n, cs). P n) df) = length (filter P (column_names df))"
  by (induction df) (auto simp: column_names_def)

lemma default_reshape_names:
  "column_names (rename_columns m (filter (\<lambda>(n, cs). n \<noteq> ''symbol'') (reverse_rows df0))) =
     map (rename_label m) (filter (\<lambda>n. n \<noteq> ''symbol'') (column_names df0))"
  by (simp only: column_names_rename column_names_filter column_names_reverse_rows)

lemma default_reshape_success:
  fixes b q :: string and df0 :: frame
  defines "df \<equiv> rename_columns (volume_renames (''Volume '' @ b) (''Volume '' @ q))
          (filter (\<lambda>(n, cs). n \<noteq> ''symbol'') (reverse_rows df0))"
  assumes sym: "''symbol'' \<in> set (column_names df0)"
    and u: "getitem df0 ''unix'' = Inr u" and xs: "astype_int env (rev u) = Inr xs"
    and bound: "\<forall>x \<in> set xs. timestamp_ok (normalize_unix x)"
    and fresh: "''date'' \<notin> set (map lower (filter (\<lambda>n. n \<noteq> ''date'') (column_names df)))"
  defines "out3 \<equiv> (''date'', map (\<lambda>x. to_timestamp (normalize_unix x)) xs) #
          map (\<lambda>(n, cs). (lower n, cs))
            (filter (\<lambda>(n, cs). n \<noteq> ''date'')
               (setitem df ''unix'' (map (\<lambda>x. PInt (normalize_unix x)) xs)))"
  shows "default_reshape env b q True df0 = Inr out3"
    and "''volume_quote'' \<in> set (column_names out3) \<Longrightarrow>
         default_reshape env b q False df0 =
           Inr (rename_columns [''volume_base'' \<mapsto> ''volume'']
                  (filter (\<lambda>(n, cs). n \<noteq> ''volume_quote'') out3))"
proof -
  have dr: "drop_columns [''symbol''] (reverse_rows df0) =
      Inr (filter (\<lambda>(n, cs). n \<noteq> ''symbol'') (reverse_rows df0))"
    using sym by (simp add: drop_columns_Inr column_names_reverse_rows)
  have "getitem df ''unix'' = getitem (reverse_rows df0) ''unix''"
    unfolding df_def
    by (subst getitem_rename [OF volume_renames_unix]) (simp add: getitem_filter)
  with u have gu: "getitem df ''unix'' = Inr (rev u)"
    by (simp add: getitem_reverse_rows)
  have nt: "normalize_table env df = Inr out3"
    unfolding out3_def by (rule normalize_table_success [OF gu xs bound fresh])
  show "default_reshape env b q True df0 = Inr out3"
    unfolding default_reshape_def Let_def
    by (simp only: dr bindE_simps nt [unfolded df_def] if_False not_True_eq_False)
  assume vq: "''volume_quote'' \<in> set (column_names out3)"
  then have "drop_columns [''volume_quote''] out3 =
      Inr (filter (\<lambda>(n, cs). n \<noteq> ''volume_quote'') out3)"
    by (simp add: drop_columns_Inr)
  then show "default_reshape env b q False df0 =
           Inr (rename_columns [''volume_base'' \<mapsto> ''volume'']
                  (filter (\<lambda>(n, cs). n \<noteq> ''volume_quote'') out3))"
    unfolding default_reshape_def Let_def
    by (simp only: dr bindE_simps nt [unfolded df_def] if_True not_False_eq_True)
qed

lemma column_names_Cons: "column_names (c # df) = fst c # column_names df"
  by (simp add: column_names_def)

lemma column_names_normalized:
  assumes "key \<in> set (column_names df)"
  shows "column_names ((''date'', D) # map (\<lambda>(n, cs). (lower n, cs))
            (filter (\<lambda>(n, cs). n \<noteq> ''date'') (setitem df key B))) =
         ''date'' # map lower (filter (\<lambda>n. n \<noteq> ''date'') (column_names df))"
  using assms
  by (simp only: column_names_Cons column_names_relabel column_names_filter
      column_names_setitem if_True fst_conv)

lemma example_normalize:
  "normalize_unix 1700000120000 = 1700000120"
  "normalize_unix 1700000060000 = 1700000060"
  "normalize_unix 1700000000000 = 1700000000"
  by (simp_all add: normalize_unix_13_digits)

lemma example_table_names:
  "column_names example_table =
     [''unix'', ''date'', ''symbol'', ''open'', ''high'', ''low'', ''close'',
      ''Volume BTC'', ''Volume USD'']"
  by (simp add: example_table_def column_names_def)

lemma example_table_unix:
  "getitem example_table ''unix'' =
     Inr [PInt 1700000120000, PInt 1700000060000, PInt 1700000000000]"
  by (simp add: example_table_def getitem_def)

lemma lower_example_labels:
  "lower ''unix'' = ''unix''" "lower ''open'' = ''open''" "lower ''high'' = ''high''"
  "lower ''low'' = ''low''" "lower ''close'' = ''close''"
  "lower ''volume_base'' = ''volume_base''" "lower ''volume_quote'' = ''volume_quote''"
  by (simp_all add: lower_def lower_char_def)

lemma example_renamed_names:
  "map (rename_label (volume_renames (''Volume '' @ ''USD'') (''Volume '' @ ''BTC'')))
     (filter (\<lambda>n. n \<noteq> ''symbol'') (column_names example_table)) =
   [''unix'', ''date'', ''open'', ''high'', ''low'', ''close'', ''volume_quote'', ''volume_base'']"
  by (simp add: example_table_names rename_label_def volume_renames_def)

lemma example_reshape:
  "\<exists>out. default_reshape example_env ''USD'' ''BTC'' v example_table = Inr out"
proof -
  have sym: "''symbol'' \<in> set (column_names example_table)"
    by (simp add: example_table_names)
  have xs: "astype_int example_env
      (rev [PInt 1700000120000, PInt 1700000060000, PInt 1700000000000]) =
      Inr [1700000000000, 1700000060000, 1700000120000]"
    by (simp add: astype_int_def)
  have bound: "\<forall>x \<in> set [1700000000000, 1700000060000, 1700000120000 :: int].
      timestamp_ok (normalize_unix x)"
    by (simp add: example_normalize timestamp_ok_def)
  have fresh: "''date'' \<notin> set (map lower (filter (\<lambda>n. n \<noteq> ''date'')
      (column_names (rename_columns (volume_renames (''Volume '' @ ''USD'') (''Volume '' @ ''BTC''))
          (filter (\<lambda>(n, cs). n \<noteq> ''symbol'') (reverse_rows example_table))))))"
    by (simp only: default_reshape_names example_renamed_names) (simp add: lower_example_labels)
  note ok = default_reshape_success [OF sym example_table_unix xs bound fresh]
  show ?thesis
  proof (cases v)
    case True
    with ok(1) show ?thesis by auto
  next
    case False
    have "''volume_quote'' \<in> set (column_names
      ((''date'', map (\<lambda>x. to_timestamp (normalize_unix x))
          [1700000000000, 1700000060000, 1700000120000]) #
       map (\<lambda>(n, cs). (lower n, cs))
         (filter (\<lambda>(n, cs). n \<noteq> ''date'')
            (setitem (rename_columns (volume_renames (''Volume '' @ ''USD'') (''Volume '' @ ''BTC''))
               (filter (\<lambda>(n, cs). n \<noteq> ''symbol'') (reverse_rows example_table)))
               ''unix'' (map (\<lambda>x. PInt (normalize_unix x))
                  [1700000000000, 1700000060000, 1700000120000])))))"
    proof -
      have "''unix'' \<in> set (column_names
          (rename_columns (volume_renames (''Volume '' @ ''USD'') (''Volume '' @ ''BTC''))
             (filter (\<lambda>(n, cs). n \<noteq> ''symbol'') (reverse_rows example_table))))"
        by (simp only: default_reshape_names example_renamed_names) simp
      then show ?thesis
        by (simp only: column_names_normalized default_reshape_names example_renamed_names)
          (simp add: lower_example_labels)
    qed
    from ok(2) [OF this] False show ?thesis by auto
  qed
qed

lemma fetch_default_example:
  "\<exists>out. fetch_default example_env init [] ''Bitfinex'' ''USD'' ''BTC'' ''1h'' v =
     (Inr out, [''https://www.cryptodatadownload.com/cdd/Bitfinex_BTCUSD_1h.csv''])"
proof -
  from example_reshape [of v] obtain out where
    "default_reshape example_env ''USD'' ''BTC'' v example_table = Inr out" by blast
  then have "fetch_default example_env init [] ''Bitfinex'' ''USD'' ''BTC'' ''1h'' v =
     (Inr out, [''https://www.cryptodatadownload.com/cdd/Bitfinex_BTCUSD_1h.csv''])"
    by (simp add: fetch_default_def read_csv_def csv_filename_def init_def example_env_def)
  then show ?thesis by blast
qed


subsection \<open>C9: the unix column stays\<close>

text \<open>
  C9: whenever \<^verbatim>\<open>fetch_default\<close> returns a table, with either value of
  \<^verbatim>\<open>include_all_volumes\<close>, that table has a column named \<^verbatim>\<open>unix\<close>, and it holds the
  normalised values of the retrieved \<^verbatim>\<open>unix\<close> column, oldest first.
\<close>

theorem fetch_default_keeps_unix:
  "fetch_default env self log exchange_name base_symbol quote_symbol timeframe include_all_volumes
     = (Inr out, log') \<Longrightarrow>
   \<exists>df0 u xs.
     csv_response env log
       (url self @ csv_filename exchange_name quote_symbol base_symbol timeframe) 1 = Inr df0 \<and>
     getitem df0 ''unix'' = Inr u \<and> astype_int env (rev u) = Inr xs \<and>
     (''unix'', map (\<lambda>x. PInt (normalize_unix x)) xs) \<in> set out"
proof -
  assume "fetch_default env self log exchange_name base_symbol quote_symbol timeframe
      include_all_volumes = (Inr out, log')"
  then obtain df0 where
    df0: "csv_response env log
       (url self @ csv_filename exchange_name quote_symbol base_symbol timeframe) 1 = Inr df0" and
    "default_reshape env base_symbol quote_symbol include_all_volumes df0 = Inr out"
    by (auto simp: fetch_default_def read_csv_def Let_def bindE_Inr_iff)
  from default_reshape_unix [OF this(2)] df0 show ?thesis by blast
qed

theorem fetch_default_keeps_unix_witness:
  "\<exists>out. fetch_default example_env init [] ''Bitfinex'' ''USD'' ''BTC'' ''1h'' False =
       (Inr out, [''https://www.cryptodatadownload.com/cdd/Bitfinex_BTCUSD_1h.csv'']) \<and>
     (''unix'', [PInt 1700000000, PInt 1700000060, PInt 1700000120]) \<in> set out"
proof -
  from fetch_default_example [of False] obtain out where
    out: "fetch_default example_env init [] ''Bitfinex'' ''USD'' ''BTC'' ''1h'' False =
       (Inr out, [''https://www.cryptodatadownload.com/cdd/Bitfinex_BTCUSD_1h.csv''])" by blast
  from fetch_default_keeps_unix [OF out] obtain df0 u xs where
    df0: "csv_response example_env []
       (url init @ csv_filename ''Bitfinex'' ''BTC'' ''USD'' ''1h'') 1 = Inr df0" and
    u: "getitem df0 ''unix'' = Inr u" and xs: "astype_int example_env (rev u) = Inr xs" and
    mem: "(''unix'', map (\<lambda>x. PInt (normalize_unix x)) xs) \<in> set out"
    by blast
  from df0 have "df0 = example_table"
    by (simp add: example_env_def init_def csv_filename_def)
  with u have "u = [PInt 1700000120000, PInt 1700000060000, PInt 1700000000000]"
    by (simp add: example_table_unix)
  with xs have "xs = [1700000000000, 1700000060000, 1700000120000]"
    by (simp add: astype_int_def)
  with mem have "(''unix'', [PInt 1700000000, PInt 1700000060, PInt 1700000120]) \<in> set out"
    by (simp add: example_normalize)
  with out show ?thesis by blast
qed

subsection \<open>The column names of the result\<close>

lemma default_reshape_out_names:
  assumes "default_reshape env b q v df0 = Inr out"
  shows "column_names out =
     (let rn = rename_label (volume_renames (''Volume '' @ b) (''Volume '' @ q));
          names3 = ''date'' # map lower (filter (\<lambda>n. n \<noteq> ''date'')
                     (map rn (filter (\<lambda>n. n \<noteq> ''symbol'') (column_names df0))))
      in if v then names3
         else map (rename_label [''volume_base'' \<mapsto> ''volume''])
                (filter (\<lambda>n. n \<noteq> ''volume_quote'') names3))"
proof -
  define df where "df = rename_columns (volume_renames (''Volume '' @ b) (''Volume '' @ q))
          (filter (\<lambda>(n, cs). n \<noteq> ''symbol'') (reverse_rows df0))"
  from assms obtain df3 where
    df3: "normalize_table env df = Inr df3" and
    a: "v \<longrightarrow> out = df3" and
    b: "\<not> v \<longrightarrow> ''volume_quote'' \<in> set (column_names df3) \<and>
       out = rename_columns [''volume_base'' \<mapsto> ''volume'']
               (filter (\<lambda>(n, cs). n \<noteq> ''volume_quote'') df3)"
    unfolding df_def by (rule default_reshape_Inr)
  from df3 obtain u xs where
    u: "getitem df ''unix'' = Inr u" and
    df3_eq: "df3 = (''date'', map (\<lambda>x. to_timestamp (normalize_unix x)) xs) #
           map (\<lambda>(n, cs). (lower n, cs))
             (filter (\<lambda>(n, cs). n \<noteq> ''date'')
                (setitem df ''unix'' (map (\<lambda>x. PInt (normalize_unix x)) xs)))"
    by (rule normalize_table_Inr)
  have n3: "column_names df3 = ''date'' # map lower (filter (\<lambda>n. n \<noteq> ''date'')
      (map (rename_label (volume_renames (''Volume '' @ b) (''Volume '' @ q)))
         (filter (\<lambda>n. n \<noteq> ''symbol'') (column_names df0))))"
    unfolding df3_eq
    by (simp only: column_names_normalized [OF getitem_Inr_names [OF u]])
      (simp only: df_def default_reshape_names)
  show ?thesis
  proof (cases v)
    case True
    with a n3 show ?thesis by (simp only: Let_def if_True)
  next
    case False
    with b have "out = rename_columns [''volume_base'' \<mapsto> ''volume'']
               (filter (\<lambda>(n, cs). n \<noteq> ''volume_quote'') df3)"
      by simp
    then have "column_names out = map (rename_label [''volume_base'' \<mapsto> ''volume''])
        (filter (\<lambda>n. n \<noteq> ''volume_quote'') (column_names df3))"
      by (simp only: column_names_rename column_names_filter)
    with False n3 show ?thesis by (simp only: Let_def if_False)
  qed
qed

lemma absent_in_map_filter:
  "(\<forall>n \<in> set N. Q n \<longrightarrow> h n \<noteq> y) \<Longrightarrow> y \<notin> set (map h (filter Q N))"
  by auto

lemma count_one_in_map_filter:
  "distinct N \<Longrightarrow> x \<in> set N \<Longrightarrow> Q x \<Longrightarrow> h x = y \<Longrightarrow>
   (\<forall>n \<in> set N. n \<noteq> x \<longrightarrow> Q n \<longrightarrow> h n \<noteq> y) \<Longrightarrow>
   count_list (map h (filter Q N)) y = 1"
proof (induction N)
  case Nil
  then show ?case by simp
next
  case (Cons a N)
  show ?case
  proof (cases "a = x")
    case True
    with Cons.prems have "x \<notin> set N" by simp
    with Cons.prems have "\<forall>n \<in> set N. Q n \<longrightarrow> h n \<noteq> y" by auto
    then have "y \<notin> set (map h (filter Q N))" by (rule absent_in_map_filter)
    then have "count_list (map h (filter Q N)) y = 0" by (simp add: count_list_0_iff)
    with True Cons.prems show ?thesis by simp
  next
    case False
    with Cons.prems have "x \<in> set N" and "distinct N" and
      "\<forall>n \<in> set N. n \<noteq> x \<longrightarrow> Q n \<longrightarrow> h n \<noteq> y" by auto
    with Cons.IH Cons.prems have "count_list (map h (filter Q N)) y = 1" by blast
    with False Cons.prems show ?thesis by auto
  qed
qed


lemma volume_renames_cases:
  "rename_label (volume_renames bvc qvc) n =
     (if n = ''Date'' then ''date'' else if n = qvc then ''volume_quote''
      else if n = bvc then ''volume_base'' else n)"
  by (simp add: rename_label_def volume_renames_def)

lemma rename_volume_cases:
  "rename_label [''volume_base'' \<mapsto> ''volume''] n = (if n = ''volume_base'' then ''volume'' else n)"
  by (simp add: rename_label_def)

lemma lower_volume_labels:
  "lower ''volume_base'' = ''volume_base''" "lower ''volume_quote'' = ''volume_quote''"
  "lower ''date'' = ''date''"
  by (simp_all add: lower_def lower_char_def)

lemma names3_as_map_filter:
  "map lower (filter (\<lambda>n. n \<noteq> ''date'') (map rn (filter (\<lambda>n. n \<noteq> ''symbol'') N))) =
   map (\<lambda>n. lower (rn n)) (filter (\<lambda>n. n \<noteq> ''symbol'' \<and> rn n \<noteq> ''date'') N)"
  by (induction N) auto

lemma names4_as_map_filter:
  "map r2 (filter (\<lambda>n. n \<noteq> vq) (map g (filter P N))) =
   map (\<lambda>n. r2 (g n)) (filter (\<lambda>n. P n \<and> g n \<noteq> vq) N)"
  by (induction N) auto

lemma volume_columns_all:
  fixes N :: "string list"
  assumes d: "distinct N" and bin: "bvc \<in> set N" and qin: "qvc \<in> set N" and ne: "bvc \<noteq> qvc"
    and b1: "bvc \<noteq> ''Date''" and b2: "bvc \<noteq> ''symbol''"
    and q1: "qvc \<noteq> ''Date''" and q2: "qvc \<noteq> ''symbol''"
    and others: "\<forall>n \<in> set N. n \<noteq> bvc \<longrightarrow> n \<noteq> qvc \<longrightarrow>
        lower n \<noteq> ''volume'' \<and> lower n \<noteq> ''volume_base'' \<and> lower n \<noteq> ''volume_quote''"
  defines "names3 \<equiv> ''date'' # map lower (filter (\<lambda>n. n \<noteq> ''date'')
      (map (rename_label (volume_renames bvc qvc)) (filter (\<lambda>n. n \<noteq> ''symbol'') N)))"
  shows "count_list names3 ''volume_base'' = 1" and "count_list names3 ''volume_quote'' = 1"
    and "''volume'' \<notin> set names3"
proof -
  let ?rn = "rename_label (volume_renames bvc qvc)"
  let ?g = "\<lambda>n. lower (?rn n)"
  let ?P = "\<lambda>n. n \<noteq> ''symbol'' \<and> ?rn n \<noteq> ''date''"
  have n3: "names3 = ''date'' # map ?g (filter ?P N)"
    unfolding names3_def by (simp only: names3_as_map_filter)
  have rb: "?rn bvc = ''volume_base''" using ne b1 by (simp add: volume_renames_cases)
  have rq: "?rn qvc = ''volume_quote''" using q1 by (simp add: volume_renames_cases)
  have ro: "\<And>n. n \<noteq> bvc \<Longrightarrow> n \<noteq> qvc \<Longrightarrow> ?rn n \<noteq> ''date'' \<Longrightarrow> ?rn n = n"
    by (simp add: volume_renames_cases split: if_splits)
  have "count_list (map ?g (filter ?P N)) ''volume_base'' = 1"
  proof (rule count_one_in_map_filter [OF d bin])
    show "?P bvc" using b2 rb by simp
    show "?g bvc = ''volume_base''" using rb by (simp add: lower_volume_labels)
    show "\<forall>n \<in> set N. n \<noteq> bvc \<longrightarrow> ?P n \<longrightarrow> ?g n \<noteq> ''volume_base''"
    proof (intro ballI impI)
      fix n assume n: "n \<in> set N" "n \<noteq> bvc" "?P n"
      show "?g n \<noteq> ''volume_base''"
      proof (cases "n = qvc")
        case True
        with rq show ?thesis by (simp add: lower_volume_labels)
      next
        case False
        with n ro have "?rn n = n" by blast
        with others n False show ?thesis by simp
      qed
    qed
  qed
  then show "count_list names3 ''volume_base'' = 1"
    unfolding n3 by simp
  have "count_list (map ?g (filter ?P N)) ''volume_quote'' = 1"
  proof (rule count_one_in_map_filter [OF d qin])
    show "?P qvc" using q2 rq by simp
    show "?g qvc = ''volume_quote''" using rq by (simp add: lower_volume_labels)
    show "\<forall>n \<in> set N. n \<noteq> qvc \<longrightarrow> ?P n \<longrightarrow> ?g n \<noteq> ''volume_quote''"
    proof (intro ballI impI)
      fix n assume n: "n \<in> set N" "n \<noteq> qvc" "?P n"
      show "?g n \<noteq> ''volume_quote''"
      proof (cases "n = bvc")
        case True
        with rb show ?thesis by (simp add: lower_volume_labels)
      next
        case False
        with n ro have "?rn n = n" by blast
        with others n False show ?thesis by simp
      qed
    qed
  qed
  then show "count_list names3 ''volume_quote'' = 1"
    unfolding n3 by simp
  have "''volume'' \<notin> set (map ?g (filter ?P N))"
  proof (rule absent_in_map_filter, intro ballI impI)
    fix n assume n: "n \<in> set N" "?P n"
    show "?g n \<noteq> ''volume''"
    proof (cases "n = bvc \<or> n = qvc")
      case True
      with rb rq show ?thesis by (auto simp: lower_volume_labels)
    next
      case False
      with n ro have "?rn n = n" by blast
      with others n False show ?thesis by simp
    qed
  qed
  then show "''volume'' \<notin> set names3"
    unfolding n3 by simp
qed


lemma no_split_volumes:
  "''volume_base'' \<notin> set (map (rename_label [''volume_base'' \<mapsto> ''volume''])
      (filter (\<lambda>n. n \<noteq> ''volume_quote'') L))"
  "''volume_quote'' \<notin> set (map (rename_label [''volume_base'' \<mapsto> ''volume''])
      (filter (\<lambda>n. n \<noteq> ''volume_quote'') L))"
  by (auto simp: rename_volume_cases split: if_splits)

lemma volume_columns_single:
  fixes N :: "string list"
  assumes d: "distinct N" and bin: "bvc \<in> set N" and ne: "bvc \<noteq> qvc"
    and b1: "bvc \<noteq> ''Date''" and b2: "bvc \<noteq> ''symbol''" and q1: "qvc \<noteq> ''Date''"
    and others: "\<forall>n \<in> set N. n \<noteq> bvc \<longrightarrow> n \<noteq> qvc \<longrightarrow>
        lower n \<noteq> ''volume'' \<and> lower n \<noteq> ''volume_base'' \<and> lower n \<noteq> ''volume_quote''"
  defines "names3 \<equiv> ''date'' # map lower (filter (\<lambda>n. n \<noteq> ''date'')
      (map (rename_label (volume_renames bvc qvc)) (filter (\<lambda>n. n \<noteq> ''symbol'') N)))"
  shows "count_list (map (rename_label [''volume_base'' \<mapsto> ''volume''])
      (filter (\<lambda>n. n \<noteq> ''volume_quote'') names3)) ''volume'' = 1"
proof -
  let ?rn = "rename_label (volume_renames bvc qvc)"
  let ?r2 = "rename_label [''volume_base'' \<mapsto> ''volume'']"
  let ?g = "\<lambda>n. lower (?rn n)"
  let ?P = "\<lambda>n. n \<noteq> ''symbol'' \<and> ?rn n \<noteq> ''date''"
  let ?h = "\<lambda>n. ?r2 (?g n)"
  let ?Q = "\<lambda>n. ?P n \<and> ?g n \<noteq> ''volume_quote''"
  have n3: "names3 = ''date'' # map ?g (filter ?P N)"
    unfolding names3_def by (simp only: names3_as_map_filter)
  have n4: "map ?r2 (filter (\<lambda>n. n \<noteq> ''volume_quote'') names3) = ''date'' # map ?h (filter ?Q N)"
    unfolding n3 using names4_as_map_filter [of ?r2 "''volume_quote''" ?g ?P N]
    by (simp add: rename_volume_cases)
  have rb: "?rn bvc = ''volume_base''" using ne b1 by (simp add: volume_renames_cases)
  have rq: "?rn qvc = ''volume_quote''" using q1 by (simp add: volume_renames_cases)
  have ro: "\<And>n. n \<noteq> bvc \<Longrightarrow> n \<noteq> qvc \<Longrightarrow> ?rn n \<noteq> ''date'' \<Longrightarrow> ?rn n = n"
    by (simp add: volume_renames_cases split: if_splits)
  have "count_list (map ?h (filter ?Q N)) ''volume'' = 1"
  proof (rule count_one_in_map_filter [OF d bin])
    show "?Q bvc" using b2 rb by (simp add: lower_volume_labels)
    show "?h bvc = ''volume''" using rb by (simp add: lower_volume_labels rename_volume_cases)
    show "\<forall>n \<in> set N. n \<noteq> bvc \<longrightarrow> ?Q n \<longrightarrow> ?h n \<noteq> ''volume''"
    proof (intro ballI impI)
      fix n assume n: "n \<in> set N" "n \<noteq> bvc" "?Q n"
      have "n \<noteq> qvc"
      proof
        assume "n = qvc"
        with rq n(3) show False by (simp add: lower_volume_labels)
      qed
      with n ro have "?rn n = n" by blast
      with others n \<open>n \<noteq> qvc\<close> show "?h n \<noteq> ''volume''"
        by (simp add: rename_volume_cases)
    qed
  qed
  then show ?thesis
    unfolding n4 by simp
qed

lemma quote_only_renamed:
  "rename_columns (volume_renames (''Volume '' @ ''USD'') (''Volume '' @ ''BTC''))
     (filter (\<lambda>(n, cs). n \<noteq> ''symbol'') (reverse_rows quote_only_table)) =
   [(''unix'', [PInt 1700000000000, PInt 1700000060000]),
    (''date'', [PStr ''2023-11-14 22:13:20'', PStr ''2023-11-14 22:14:20'']),
    (''close'', [PInt 36102, PInt 36103]),
    (''volume_quote'', [PInt 1, PInt 2])]"
  by (simp add: quote_only_table_def reverse_rows_def rename_columns_def rename_label_def
      volume_renames_def)

lemma quote_only_normalized:
  "(''date'', map (\<lambda>x. to_timestamp (normalize_unix x)) [1700000000000, 1700000060000]) #
     map (\<lambda>(n, cs). (lower n, cs))
       (filter (\<lambda>(n, cs). n \<noteq> ''date'')
          (setitem
             [(''unix'', [PInt 1700000000000, PInt 1700000060000]),
              (''date'', [PStr ''2023-11-14 22:13:20'', PStr ''2023-11-14 22:14:20'']),
              (''close'', [PInt 36102, PInt 36103]),
              (''volume_quote'', [PInt 1, PInt 2])]
             ''unix'' (map (\<lambda>x. PInt (normalize_unix x)) [1700000000000, 1700000060000]))) =
   quote_only_result_all"
  by (simp add: setitem_def column_names_def normalize_unix_13_digits lower_example_labels
      quote_only_result_all_def to_timestamp_def)

lemma quote_only_reshape:
  "default_reshape quote_only_env ''USD'' ''BTC'' True quote_only_table = Inr quote_only_result_all"
  "default_reshape quote_only_env ''USD'' ''BTC'' False quote_only_table = Inr quote_only_result"
proof -
  have sym: "''symbol'' \<in> set (column_names quote_only_table)"
    by (simp add: quote_only_table_def column_names_def)
  have u: "getitem quote_only_table ''unix'' = Inr [PInt 1700000060000, PInt 1700000000000]"
    by (simp add: quote_only_table_def getitem_def)
  have xs: "astype_int quote_only_env (rev [PInt 1700000060000, PInt 1700000000000]) =
      Inr [1700000000000, 1700000060000]"
    by (simp add: astype_int_def)
  have bound: "\<forall>x \<in> set [1700000000000, 1700000060000 :: int].
      timestamp_ok (normalize_unix x)"
    by (simp add: normalize_unix_13_digits timestamp_ok_def)
  have fresh: "''date'' \<notin> set (map lower (filter (\<lambda>n. n \<noteq> ''date'')
      (column_names (rename_columns (volume_renames (''Volume '' @ ''USD'') (''Volume '' @ ''BTC''))
          (filter (\<lambda>(n, cs). n \<noteq> ''symbol'') (reverse_rows quote_only_table))))))"
    by (simp only: quote_only_renamed) (simp add: column_names_def lower_example_labels)
  note ok = default_reshape_success [OF sym u xs bound fresh,
      unfolded quote_only_renamed quote_only_normalized]
  from ok(1) show "default_reshape quote_only_env ''USD'' ''BTC'' True quote_only_table =
      Inr quote_only_result_all" .
  have "''volume_quote'' \<in> set (column_names quote_only_result_all)"
    by (simp add: quote_only_result_all_def column_names_def)
  from ok(2) [OF this]
  show "default_reshape quote_only_env ''USD'' ''BTC'' False quote_only_table =
      Inr quote_only_result"
    by (simp add: quote_only_result_all_def quote_only_result_def rename_columns_def
        rename_label_def)
qed


lemma fetch_default_Inr:
  assumes "fetch_default env self log exchange_name base_symbol quote_symbol timeframe
      include_all_volumes = (Inr out, log')"
  obtains df0 where
    "csv_response env log
       (url self @ csv_filename exchange_name quote_symbol base_symbol timeframe) 1 = Inr df0"
    "default_reshape env base_symbol quote_symbol include_all_volumes df0 = Inr out"
  using assms by (auto simp: fetch_default_def read_csv_def Let_def bindE_Inr_iff)


lemma example_table_others:
  "\<forall>n \<in> set (column_names example_table).
     n \<noteq> ''Volume '' @ ''USD'' \<longrightarrow> n \<noteq> ''Volume '' @ ''BTC'' \<longrightarrow>
     lower n \<noteq> ''volume'' \<and> lower n \<noteq> ''volume_base'' \<and> lower n \<noteq> ''volume_quote''"
  by (simp add: example_table_names lower_def lower_char_def)


subsection \<open>C2: the volume columns\<close>

text \<open>
  C2, as the specification words it: every successful call of \<^verbatim>\<open>fetch_default\<close> with
  \<^verbatim>\<open>include_all_volumes\<close> false returns exactly one volume column, named \<^verbatim>\<open>volume\<close>,
  and with the flag true returns both \<^verbatim>\<open>volume_base\<close> and \<^verbatim>\<open>volume_quote\<close>. The
  renaming is silent about a label the file does not carry: on a file with the column
  \<^verbatim>\<open>Volume BTC\<close> but no \<^verbatim>\<open>Volume USD\<close>, the call for base symbol \<^verbatim>\<open>USD\<close> and quote
  symbol \<^verbatim>\<open>BTC\<close> succeeds with no \<^verbatim>\<open>volume\<close> column when the flag is false, and with no
  \<^verbatim>\<open>volume_base\<close> column when it is true.
\<close>

theorem fetch_default_volume_columns_counterexample:
  "fetch_default quote_only_env init [] ''Bitfinex'' ''USD'' ''BTC'' ''1h'' False =
     (Inr quote_only_result, [''https://www.cryptodatadownload.com/cdd/Bitfinex_BTCUSD_1h.csv'']) \<and>
   ''volume'' \<notin> set (column_names quote_only_result) \<and>
   fetch_default quote_only_env init [] ''Bitfinex'' ''USD'' ''BTC'' ''1h'' True =
     (Inr quote_only_result_all,
      [''https://www.cryptodatadownload.com/cdd/Bitfinex_BTCUSD_1h.csv'']) \<and>
   ''volume_base'' \<notin> set (column_names quote_only_result_all)"
  using quote_only_reshape
  by (simp add: fetch_default_def read_csv_def csv_filename_def init_def quote_only_env_def
      quote_only_result_def quote_only_result_all_def column_names_def)

text \<open>
  C2, amended: a successful call with the flag false never returns a column named
  \<^verbatim>\<open>volume_base\<close> or \<^verbatim>\<open>volume_quote\<close>. When moreover the header of the retrieved table
  has distinct labels, among them \<^verbatim>\<open>Volume {base_symbol}\<close> and \<^verbatim>\<open>Volume {quote_symbol}\<close>
  for two different symbols, and no other label that lower-cases to \<^verbatim>\<open>volume\<close>,
  \<^verbatim>\<open>volume_base\<close> or \<^verbatim>\<open>volume_quote\<close>, then with the flag false the result has exactly
  one column named \<^verbatim>\<open>volume\<close>, and with the flag true it has exactly one \<^verbatim>\<open>volume_base\<close>,
  exactly one \<^verbatim>\<open>volume_quote\<close> and no \<^verbatim>\<open>volume\<close>.
\<close>

theorem fetch_default_volume_columns:
  assumes ret: "fetch_default env self log exchange_name base_symbol quote_symbol timeframe
      include_all_volumes = (Inr out, log')"
  shows "(\<not> include_all_volumes \<longrightarrow>
            ''volume_base'' \<notin> set (column_names out) \<and>
            ''volume_quote'' \<notin> set (column_names out)) \<and>
         (csv_response env log
            (url self @ csv_filename exchange_name quote_symbol base_symbol timeframe) 1 = Inr df0 \<and>
          distinct (column_names df0) \<and>
          ''Volume '' @ base_symbol \<in> set (column_names df0) \<and>
          ''Volume '' @ quote_symbol \<in> set (column_names df0) \<and>
          base_symbol \<noteq> quote_symbol \<and>
          (\<forall>n \<in> set (column_names df0).
             n \<noteq> ''Volume '' @ base_symbol \<longrightarrow> n \<noteq> ''Volume '' @ quote_symbol \<longrightarrow>
             lower n \<noteq> ''volume'' \<and> lower n \<noteq> ''volume_base'' \<and> lower n \<noteq> ''volume_quote'') \<longrightarrow>
          (if include_all_volumes
           then count_list (column_names out) ''volume_base'' = 1 \<and>
                count_list (column_names out) ''volume_quote'' = 1 \<and>
                ''volume'' \<notin> set (column_names out)
           else count_list (column_names out) ''volume'' = 1))"
proof (intro conjI impI)
  from ret obtain df1 where
    df1: "csv_response env log
       (url self @ csv_filename exchange_name quote_symbol base_symbol timeframe) 1 = Inr df1" and
    rs: "default_reshape env base_symbol quote_symbol include_all_volumes df1 = Inr out"
    by (rule fetch_default_Inr)
  note names = default_reshape_out_names [OF rs, unfolded Let_def]
  {
    assume "\<not> include_all_volumes"
    with names show "''volume_base'' \<notin> set (column_names out)"
      by (simp only: if_False no_split_volumes not_False_eq_True)
  next
    assume "\<not> include_all_volumes"
    with names show "''volume_quote'' \<notin> set (column_names out)"
      by (simp only: if_False no_split_volumes not_False_eq_True)
  next
    assume a: "csv_response env log
            (url self @ csv_filename exchange_name quote_symbol base_symbol timeframe) 1 = Inr df0 \<and>
          distinct (column_names df0) \<and>
          ''Volume '' @ base_symbol \<in> set (column_names df0) \<and>
          ''Volume '' @ quote_symbol \<in> set (column_names df0) \<and>
          base_symbol \<noteq> quote_symbol \<and>
          (\<forall>n \<in> set (column_names df0).
             n \<noteq> ''Volume '' @ base_symbol \<longrightarrow> n \<noteq> ''Volume '' @ quote_symbol \<longrightarrow>
             lower n \<noteq> ''volume'' \<and> lower n \<noteq> ''volume_base'' \<and> lower n \<noteq> ''volume_quote'')"
    with df1 have eq: "df1 = df0" by simp
    from a have d: "distinct (column_names df0)"
      and bin: "''Volume '' @ base_symbol \<in> set (column_names df0)"
      and qin: "''Volume '' @ quote_symbol \<in> set (column_names df0)"
      and ne: "''Volume '' @ base_symbol \<noteq> ''Volume '' @ quote_symbol"
      and others: "\<forall>n \<in> set (column_names df0).
             n \<noteq> ''Volume '' @ base_symbol \<longrightarrow> n \<noteq> ''Volume '' @ quote_symbol \<longrightarrow>
             lower n \<noteq> ''volume'' \<and> lower n \<noteq> ''volume_base'' \<and> lower n \<noteq> ''volume_quote''"
      by simp_all
    have b1: "''Volume '' @ base_symbol \<noteq> ''Date''" and b2: "''Volume '' @ base_symbol \<noteq> ''symbol''"
      and q1: "''Volume '' @ quote_symbol \<noteq> ''Date''" and q2: "''Volume '' @ quote_symbol \<noteq> ''symbol''"
      by simp_all
    show "if include_all_volumes
           then count_list (column_names out) ''volume_base'' = 1 \<and>
                count_list (column_names out) ''volume_quote'' = 1 \<and>
                ''volume'' \<notin> set (column_names out)
           else count_list (column_names out) ''volume'' = 1"
    proof (cases include_all_volumes)
      case True
      with names eq have "column_names out = ''date'' # map lower (filter (\<lambda>n. n \<noteq> ''date'')
          (map (rename_label (volume_renames (''Volume '' @ base_symbol) (''Volume '' @ quote_symbol)))
             (filter (\<lambda>n. n \<noteq> ''symbol'') (column_names df0))))"
        by (simp only: if_True)
      with True volume_columns_all [OF d bin qin ne b1 b2 q1 q2 others] show ?thesis
        by (simp only: if_True simp_thms)
    next
      case False
      with names eq have "column_names out =
          map (rename_label [''volume_base'' \<mapsto> ''volume''])
            (filter (\<lambda>n. n \<noteq> ''volume_quote'')
              (''date'' # map lower (filter (\<lambda>n. n \<noteq> ''date'')
                (map (rename_label (volume_renames (''Volume '' @ base_symbol) (''Volume '' @ quote_symbol)))
                   (filter (\<lambda>n. n \<noteq> ''symbol'') (column_names df0))))))"
        by (simp only: if_False)
      with False volume_columns_single [OF d bin ne b1 b2 q1 others] show ?thesis
        by (simp only: if_False simp_thms)
    qed
  }
qed

theorem fetch_default_volume_columns_witness:
  "\<exists>out out'.
     fetch_default example_env init [] ''Bitfinex'' ''USD'' ''BTC'' ''1h'' False =
       (Inr out, [''https://www.cryptodatadownload.com/cdd/Bitfinex_BTCUSD_1h.csv'']) \<and>
     count_list (column_names out) ''volume'' = 1 \<and>
     ''volume_base'' \<notin> set (column_names out) \<and> ''volume_quote'' \<notin> set (column_names out) \<and>
     fetch_default example_env init [] ''Bitfinex'' ''USD'' ''BTC'' ''1h'' True =
       (Inr out', [''https://www.cryptodatadownload.com/cdd/Bitfinex_BTCUSD_1h.csv'']) \<and>
     count_list (column_names out') ''volume_base'' = 1 \<and>
     count_list (column_names out') ''volume_quote'' = 1 \<and>
     ''volume'' \<notin> set (column_names out')"
proof -
  from fetch_default_example [of False] obtain out where
    out: "fetch_default example_env init [] ''Bitfinex'' ''USD'' ''BTC'' ''1h'' False =
       (Inr out, [''https://www.cryptodatadownload.com/cdd/Bitfinex_BTCUSD_1h.csv''])" by blast
  from fetch_default_example [of True] obtain out' where
    out': "fetch_default example_env init [] ''Bitfinex'' ''USD'' ''BTC'' ''1h'' True =
       (Inr out', [''https://www.cryptodatadownload.com/cdd/Bitfinex_BTCUSD_1h.csv''])" by blast
  have hyp: "csv_response example_env []
       (url init @ csv_filename ''Bitfinex'' ''BTC'' ''USD'' ''1h'') 1 = Inr example_table \<and>
     distinct (column_names example_table) \<and>
     ''Volume '' @ ''USD'' \<in> set (column_names example_table) \<and>
     ''Volume '' @ ''BTC'' \<in> set (column_names example_table) \<and>
     ''USD'' \<noteq> ''BTC'' \<and>
     (\<forall>n \<in> set (column_names example_table).
        n \<noteq> ''Volume '' @ ''USD'' \<longrightarrow> n \<noteq> ''Volume '' @ ''BTC'' \<longrightarrow>
        lower n \<noteq> ''volume'' \<and> lower n \<noteq> ''volume_base'' \<and> lower n \<noteq> ''volume_quote'')"
    using example_table_others
    by (simp add: example_env_def init_def csv_filename_def example_table_names)
  from fetch_default_volume_columns [OF out, of example_table] hyp
  have "count_list (column_names out) ''volume'' = 1 \<and>
     ''volume_base'' \<notin> set (column_names out) \<and> ''volume_quote'' \<notin> set (column_names out)"
    by simp
  moreover from fetch_default_volume_columns [OF out', of example_table] hyp
  have "count_list (column_names out') ''volume_base'' = 1 \<and>
     count_list (column_names out') ''volume_quote'' = 1 \<and>
     ''volume'' \<notin> set (column_names out')"
    by simp
  ultimately show ?thesis using out out' by blast
qed

end
